theory Spec2Isabelle
  imports Main "HOL-Library.Word" "HOL-Library.Product_Lexorder" "HOL-Library.AList"
begin

unbundle bit_operations_syntax

section \<open>Data model of \<^verbatim>\<open>elfremove.py\<close>\<close>

text \<open>
  The class \<^verbatim>\<open>ELFRemove\<close> keeps an open file and a handful of located sections.  The
  embedding keeps the Python names.  Python integers are \<open>int\<close> where a value may become
  negative and \<open>nat\<close> where it is an unsigned field read from the file or a list position.
  Every \<^verbatim>\<open>raise\<close> of the source and every exception of a built-in the source relies on
  is a constructor of \<open>error\<close>; a function that may raise returns \<open>error + 'a\<close>.
\<close>

type_synonym byte = "8 word"

datatype e_machine = EM_X86_64 | EM_386

datatype error =
    SectionNotAvailable
  | StaleCollection
  | SectionSizeBroken
  | InvalidSectionAttribute
  | GnuHashIndexOutOfBounds
  | GnuHashMismatch
  | BucketsNotSorted
  | IndexError
  | KeyError
  | ValueError
  | TypeError
  | ZeroDivisionError
  | AssertionError
  | AttributeError
  | StructError
  | OverflowError
  | StopIteration
  | OSError
  | Diverges

text \<open>\<^verbatim>\<open>class SymbolWrapper\<close>: the captured identity of a symbol to delete.\<close>

record symbol_wrapper =
  sw_name :: string
  sw_index :: nat
  sw_name_offset :: nat
  sw_value :: nat
  sw_size :: nat
  sw_sec_version :: nat

text \<open>
  One symbol as \<^verbatim>\<open>iter_symbols()\<close> of the ELF library yields it: the decoded name and the
  fields of \<^verbatim>\<open>Elf_Sym\<close> the source reads.  \<open>st_info\<close> is the raw byte; its low nibble is
  the type (\<^verbatim>\<open>STT_FUNC\<close> is 2), its high nibble the binding.
\<close>

record sym_entry =
  sym_name :: string
  st_name :: nat
  st_value :: nat
  st_size :: nat
  st_info :: nat

definition is_STT_FUNC :: "sym_entry \<Rightarrow> bool" where
  "is_STT_FUNC s = (st_info s mod 16 = 2)"

text \<open>The section header fields the source reads or writes, shared by all section kinds.\<close>

record section_hdr =
  sh_name :: string
  sh_offset :: nat
  sh_size :: nat
  sh_entsize :: nat
  sh_info :: nat

record symtab_section = section_hdr +
  symbols :: "sym_entry list"

text \<open>
  \<^verbatim>\<open>class SectionWrapper\<close>: a section object, its number in the section header table
  (\<open>-1\<close> for a section synthesised from the dynamic segment or taken from an external
  file) and the version counter.
\<close>

record 'sec section_wrapper =
  w_section :: 'sec
  w_index :: int
  w_version :: nat

text \<open>A relocation entry with the decomposed \<^verbatim>\<open>r_info\<close>.\<close>

record reloc =
  r_offset :: nat
  r_info :: int
  r_info_sym :: int
  r_info_type :: int
  r_addend :: int

text \<open>
  A relocation section: the entries \<^verbatim>\<open>iter_relocations()\<close> yields, the attribute
  \<^verbatim>\<open>_size\<close> the library counts them with, and \<open>rs_raw\<close>, the bytes of the file from
  the section's offset on.
\<close>

record rel_section = section_hdr +
  rs_is_RELA :: bool
  rs_relocs :: "reloc list"
  rs_size :: int
  rs_raw :: "byte list"

record hash_section = section_hdr +
  h_nbuckets :: int
  h_nchains :: int
  h_buckets :: "int list"
  h_chains :: "int list"

record gnu_hash_section = section_hdr +
  gh_nbuckets :: nat
  gh_symoffset :: int
  gh_bloom_size :: nat
  gh_buckets :: "int list"
  gh_chains :: "32 word list"

record version_section = section_hdr +
  versions :: "nat list"

record dynamic_section = section_hdr +
  tagsize :: nat
  tags :: "(string \<times> int) list"

record dynstr_section = section_hdr +
  strtab :: "byte list"

text \<open>
  The object itself.  \<open>f_stream\<close> is the file as a sequence of bytes addressed by file
  offset; it is what the code overwriter and the implicit addends of \<^verbatim>\<open>.rel\<close>
  sections read and write.  The contents of each located section are kept with the
  section, in the form the source reads them (parsed entries for the tables, bytes for
  \<^verbatim>\<open>.dynstr\<close>); \<open>segments\<close> are the \<^verbatim>\<open>PT_LOAD\<close> program headers as
  \<open>(p_vaddr, p_filesz, p_offset)\<close>.
\<close>

record elfremove =
  machine :: e_machine
  little_endian :: bool
  need_continuous_relocations :: bool
  f_stream :: "byte list"
  segments :: "(nat \<times> nat \<times> nat) list"
  dynsym :: "symtab_section section_wrapper option"
  symtab :: "symtab_section section_wrapper option"
  rel_dyn :: "rel_section section_wrapper option"
  rel_plt :: "rel_section section_wrapper option"
  elf_hash :: "hash_section section_wrapper option"
  gnu_hash :: "gnu_hash_section section_wrapper option"
  gnu_version :: "version_section section_wrapper option"
  dynamic :: "dynamic_section section_wrapper option"
  dynstr :: "dynstr_section section_wrapper option"
  verneed :: "(nat \<times> nat list) list option"
  verdef :: "nat list list option"
  dynstr_ranges :: "((nat \<times> nat) \<times> int) list"
  collection_dynsym :: "symbol_wrapper list"
  collection_symtab :: "symbol_wrapper list"
  local_functions :: "(nat \<times> nat) list"

definition blacklist :: "string list" where
  "blacklist = [''_init'', ''_fini'']"


section \<open>Symbol collector\<close>

text \<open>
  \<^verbatim>\<open>collect_symbols_by_name\<close> and \<^verbatim>\<open>collect_symbols_by_address\<close>.  The loops walk
  \<^verbatim>\<open>iter_symbols()\<close> with the counter \<^verbatim>\<open>entry_cnt\<close>; the argument \<open>entry_cnt\<close> below is
  its value after the increment at the head of the loop body.
\<close>

fun by_name_loop ::
  "string set \<Rightarrow> bool \<Rightarrow> nat \<Rightarrow> sym_entry list \<Rightarrow> nat \<Rightarrow> symbol_wrapper list" where
  "by_name_loop symbol_list complement version [] entry_cnt = []"
| "by_name_loop symbol_list complement version (symbol # rest) entry_cnt =
    (if sym_name symbol \<in> set blacklist
     then by_name_loop symbol_list complement version rest (entry_cnt + 1)
     else if (complement \<and> sym_name symbol \<notin> symbol_list)
           \<or> (\<not> complement \<and> sym_name symbol \<in> symbol_list)
     then (if \<not> is_STT_FUNC symbol
           then by_name_loop symbol_list complement version rest (entry_cnt + 1)
           else \<lparr>sw_name = sym_name symbol, sw_index = entry_cnt,
                 sw_name_offset = st_name symbol, sw_value = st_value symbol,
                 sw_size = st_size symbol, sw_sec_version = version\<rparr>
                # by_name_loop symbol_list complement version rest (entry_cnt + 1))
     else by_name_loop symbol_list complement version rest (entry_cnt + 1))"

definition collect_symbols_by_name ::
  "symtab_section section_wrapper \<Rightarrow> string set \<Rightarrow> bool \<Rightarrow> symbol_wrapper list" where
  "collect_symbols_by_name section symbol_list complement =
     by_name_loop symbol_list complement (w_version section)
       (symbols (w_section section)) 0"

fun by_address_loop ::
  "nat set \<Rightarrow> bool \<Rightarrow> nat \<Rightarrow> sym_entry list \<Rightarrow> nat \<Rightarrow> symbol_wrapper list" where
  "by_address_loop address_list complement version [] entry_cnt = []"
| "by_address_loop address_list complement version (symbol # rest) entry_cnt =
    (if sym_name symbol \<in> set blacklist
     then by_address_loop address_list complement version rest (entry_cnt + 1)
     else if (complement \<and> st_value symbol \<notin> address_list)
           \<or> (\<not> complement \<and> st_value symbol \<in> address_list)
     then (if \<not> is_STT_FUNC symbol
           then by_address_loop address_list complement version rest (entry_cnt + 1)
           else \<lparr>sw_name = sym_name symbol, sw_index = entry_cnt,
                 sw_name_offset = st_name symbol, sw_value = st_value symbol,
                 sw_size = st_size symbol, sw_sec_version = version\<rparr>
                # by_address_loop address_list complement version rest (entry_cnt + 1))
     else by_address_loop address_list complement version rest (entry_cnt + 1))"

definition collect_symbols_by_address ::
  "symtab_section section_wrapper \<Rightarrow> nat set \<Rightarrow> bool \<Rightarrow> symbol_wrapper list" where
  "collect_symbols_by_address section address_list complement =
     by_address_loop address_list complement (w_version section)
       (symbols (w_section section)) 0"

text \<open>
  \<^verbatim>\<open>collect_symbols_in_section\<close> with its assertion; a missing section makes
  \<^verbatim>\<open>section.section\<close> an attribute error.
\<close>

definition collect_symbols_in_section ::
  "symtab_section section_wrapper option \<Rightarrow> string set option \<Rightarrow> nat set option \<Rightarrow> bool
    \<Rightarrow> error + symbol_wrapper list" where
  "collect_symbols_in_section section names addrs complement =
     (if names = None \<and> addrs = None then Inl AssertionError
      else case section of
             None \<Rightarrow> Inl AttributeError
           | Some sec \<Rightarrow>
               (case names of
                  Some ns \<Rightarrow> Inr (collect_symbols_by_name sec ns complement)
                | None \<Rightarrow> Inr (collect_symbols_by_address sec (the addrs) complement)))"

definition collect_symbols_in_dynsym ::
  "elfremove \<Rightarrow> string set option \<Rightarrow> nat set option \<Rightarrow> bool \<Rightarrow> error + elfremove" where
  "collect_symbols_in_dynsym self names addrs complement =
     (case collect_symbols_in_section (dynsym self) names addrs complement of
        Inl e \<Rightarrow> Inl e
      | Inr found \<Rightarrow> Inr (self\<lparr>collection_dynsym := found\<rparr>))"

definition collect_symbols_in_symtab ::
  "elfremove \<Rightarrow> string set option \<Rightarrow> nat set option \<Rightarrow> bool \<Rightarrow> error + elfremove" where
  "collect_symbols_in_symtab self names addrs complement =
     (case collect_symbols_in_section (symtab self) names addrs complement of
        Inl e \<Rightarrow> Inl e
      | Inr found \<Rightarrow> Inr (self\<lparr>collection_symtab := found\<rparr>))"

text \<open>What the collector is meant to return, as one filter over the numbered table.\<close>

definition symbol_ref :: "nat \<Rightarrow> nat \<times> sym_entry \<Rightarrow> symbol_wrapper" where
  "symbol_ref version p =
     \<lparr>sw_name = sym_name (snd p), sw_index = fst p, sw_name_offset = st_name (snd p),
      sw_value = st_value (snd p), sw_size = st_size (snd p), sw_sec_version = version\<rparr>"

definition selected :: "(sym_entry \<Rightarrow> bool) \<Rightarrow> bool \<Rightarrow> sym_entry \<Rightarrow> bool" where
  "selected matches complement s =
     (is_STT_FUNC s \<and> sym_name s \<notin> {''_init'', ''_fini''} \<and> (matches s \<noteq> complement))"


section \<open>Kept byte ranges\<close>

text \<open>
  \<^verbatim>\<open>get_function_addresses\<close>: the dictionary is an association list in insertion order
  (\<open>AList.update\<close> overwrites in place, as a Python dict does); \<^verbatim>\<open>sorted(items())\<close> is
  the lexicographic sort of the pairs.  \<open>local_functions\<close> is a Python set; the list is
  one enumeration of it.
\<close>

definition get_function_addresses :: "elfremove \<Rightarrow> (nat \<times> nat) list" where
  "get_function_addresses self =
     (let addr_dict = fold (\<lambda>ent d. if sw_value ent = 0 \<and> sw_size ent = 0 then d
                                     else AList.update (sw_value ent) (sw_size ent) d)
                           (collection_dynsym self) [];
          addr_dict = (if local_functions self \<noteq> []
                       then fold (\<lambda>func d. AList.update (fst func) (snd func) d)
                                 (local_functions self) addr_dict
                       else addr_dict)
      in sort addr_dict)"

text \<open>
  The loop of \<^verbatim>\<open>get_keep_list\<close>.  \<open>ranges\<close> is a list of lists, as in the source;
  \<open>index\<close> is always the position of its last element, so neither
  \<^verbatim>\<open>ranges[index]\<close> can fail.
\<close>

fun keep_loop :: "(nat \<times> nat) list \<Rightarrow> nat list list \<Rightarrow> nat \<Rightarrow> nat list list \<times> nat" where
  "keep_loop [] ranges index = (ranges, index)"
| "keep_loop ((start, size_f) # rest) ranges index =
    (let end_r = start; next_start = start + size_f in
     if next_start = end_r then keep_loop rest ranges index
     else keep_loop rest
            ((ranges[index := ranges ! index @ [end_r]]) @ [[next_start]]) (index + 1))"

definition get_keep_list :: "elfremove \<Rightarrow> nat \<Rightarrow> nat list list" where
  "get_keep_list self total_size =
     (let addrs = get_function_addresses self;
          (ranges, index) = keep_loop addrs [[0]] 0
      in ranges[index := ranges ! index @ [total_size]])"

text \<open>The removed functions that open a gap, and the ranges around a list of gaps.\<close>

definition gaps :: "elfremove \<Rightarrow> (nat \<times> nat) list" where
  "gaps self = filter (\<lambda>p. snd p \<noteq> 0) (get_function_addresses self)"

fun ranges_around :: "nat \<Rightarrow> (nat \<times> nat) list \<Rightarrow> nat \<Rightarrow> nat list list" where
  "ranges_around start [] total_size = [[start, total_size]]"
| "ranges_around start (g # gs) total_size =
     [start, fst g] # ranges_around (fst g + snd g) gs total_size"

definition ranges_ascending :: "nat list list \<Rightarrow> bool" where
  "ranges_ascending ranges = sorted (concat ranges)"

definition empty_elf :: elfremove where
  "empty_elf =
     \<lparr>machine = EM_X86_64, little_endian = True, need_continuous_relocations = False,
      f_stream = [], segments = [], dynsym = None, symtab = None, rel_dyn = None,
      rel_plt = None, elf_hash = None, gnu_hash = None, gnu_version = None,
      dynamic = None, dynstr = None, verneed = None, verdef = None, dynstr_ranges = [],
      collection_dynsym = [], collection_symtab = [], local_functions = []\<rparr>"

text \<open>
  The removed functions, taken by ascending address, neither overlap nor run past
  \<open>total_size\<close>.
\<close>

fun fits :: "nat \<Rightarrow> (nat \<times> nat) list \<Rightarrow> nat \<Rightarrow> bool" where
  "fits start [] total_size = (start \<le> total_size)"
| "fits start (g # gs) total_size = (start \<le> fst g \<and> fits (fst g + snd g) gs total_size)"

definition mk_symbol :: "string \<Rightarrow> nat \<Rightarrow> nat \<Rightarrow> nat \<Rightarrow> nat \<Rightarrow> nat \<Rightarrow> symbol_wrapper" where
  "mk_symbol n i off v sz ver =
     \<lparr>sw_name = n, sw_index = i, sw_name_offset = off, sw_value = v, sw_size = sz,
      sw_sec_version = ver\<rparr>"

definition mk_entry :: "string \<Rightarrow> nat \<Rightarrow> nat \<Rightarrow> nat \<Rightarrow> nat \<Rightarrow> sym_entry" where
  "mk_entry n off v sz info =
     \<lparr>sym_name = n, st_name = off, st_value = v, st_size = sz, st_info = info\<rparr>"

text \<open>Example objects: two nested functions; two disjoint ones and one of size zero.\<close>

definition elf_nested :: elfremove where
  "elf_nested = empty_elf\<lparr>collection_dynsym :=
     [mk_symbol ''memcpy'' 1 1 16 256 0, mk_symbol ''memcpy_tail'' 2 8 32 8 0]\<rparr>"

definition elf_disjoint :: elfremove where
  "elf_disjoint = empty_elf\<lparr>collection_dynsym :=
     [mk_symbol ''bar'' 2 5 32 8 0, mk_symbol ''foo'' 1 1 16 8 0],
     local_functions := [(64, 0)]\<rparr>"

text \<open>Example symbol table: the null symbol, two functions, \<^verbatim>\<open>_init\<close> and an object.\<close>

definition example_symbols :: "sym_entry list" where
  "example_symbols =
     [mk_entry [] 0 0 0 0, mk_entry ''foo'' 1 4096 42 18, mk_entry ''_init'' 5 4000 20 18,
      mk_entry ''bar'' 11 4200 16 18, mk_entry ''data'' 15 8192 8 17]"

definition example_dynsym :: "symtab_section section_wrapper" where
  "example_dynsym =
     \<lparr>w_section = \<lparr>sh_name = ''.dynsym'', sh_offset = 512, sh_size = 120, sh_entsize = 24,
                    sh_info = 1, symbols = example_symbols\<rparr>,
      w_index = 4, w_version = 3\<rparr>"

section \<open>Section headers and dynamic tags\<close>

text \<open>
  \<^verbatim>\<open>_set_section_attribute\<close>.  The old value is read from the section header table of
  the file; the parsed header is kept in step with it, so the model has one copy.  A
  section with index \<open>-1\<close> has no header in the file and is left alone.
\<close>

definition set_section_attribute ::
  "('a section_hdr_scheme) section_wrapper \<Rightarrow> string \<Rightarrow> nat \<Rightarrow> bool
    \<Rightarrow> error + ('a section_hdr_scheme) section_wrapper" where
  "set_section_attribute section attribute value subtract_from_orig =
     (if w_index section = - 1 then Inr section
      else if attribute \<noteq> ''sh_size'' \<and> attribute \<noteq> ''sh_info''
      then Inl InvalidSectionAttribute
      else let old_value = (if attribute = ''sh_size'' then sh_size (w_section section)
                            else sh_info (w_section section))
           in if old_value < value then Inl SectionSizeBroken
              else let new_value = (if subtract_from_orig then old_value - value else value)
                   in Inr (if attribute = ''sh_size''
                           then section\<lparr>w_section := (w_section section)\<lparr>sh_size := new_value\<rparr>\<rparr>
                           else section\<lparr>w_section := (w_section section)\<lparr>sh_info := new_value\<rparr>\<rparr>))"

definition set_section_size ::
  "('a section_hdr_scheme) section_wrapper \<Rightarrow> nat \<Rightarrow> bool
    \<Rightarrow> error + ('a section_hdr_scheme) section_wrapper" where
  "set_section_size section value subtract_from_orig =
     set_section_attribute section ''sh_size'' value subtract_from_orig"

definition change_section_size ::
  "('a section_hdr_scheme) section_wrapper \<Rightarrow> nat
    \<Rightarrow> error + ('a section_hdr_scheme) section_wrapper" where
  "change_section_size section amount = set_section_size section amount True"

definition set_section_info ::
  "('a section_hdr_scheme) section_wrapper \<Rightarrow> nat \<Rightarrow> bool
    \<Rightarrow> error + ('a section_hdr_scheme) section_wrapper" where
  "set_section_info section value subtract_from_orig =
     set_section_attribute section ''sh_info'' value subtract_from_orig"

text \<open>
  \<^verbatim>\<open>_modify_dynamic_tag_at_index\<close>: the tag is unpacked, its value replaced and packed
  again as an unsigned word (32 bits when a tag has 8 bytes, 64 otherwise); packing a
  value out of range is a \<^verbatim>\<open>struct.error\<close>.
\<close>

definition modify_dynamic_tag_at_index ::
  "dynamic_section section_wrapper \<Rightarrow> nat \<Rightarrow> (int \<Rightarrow> error + int)
    \<Rightarrow> error + dynamic_section section_wrapper" where
  "modify_dynamic_tag_at_index dyn index value_modifier_function =
     (let (tagno, old_val) = tags (w_section dyn) ! index in
      case value_modifier_function old_val of
        Inl e \<Rightarrow> Inl e
      | Inr new_val \<Rightarrow>
          if new_val < 0 \<or> 2 ^ (if tagsize (w_section dyn) = 8 then 32 else 64) \<le> new_val
          then Inl StructError
          else Inr (dyn\<lparr>w_section := (w_section dyn)
                     \<lparr>tags := (tags (w_section dyn))[index := (tagno, new_val)]\<rparr>\<rparr>))"

fun found_tag :: "(string \<times> int) list \<Rightarrow> string \<Rightarrow> nat \<Rightarrow> nat list" where
  "found_tag [] target_tag idx = []"
| "found_tag (tag # rest) target_tag idx =
     (if fst tag = target_tag then idx # found_tag rest target_tag (idx + 1)
      else found_tag rest target_tag (idx + 1))"

definition write_dynamic_tag ::
  "elfremove \<Rightarrow> string \<Rightarrow> int \<Rightarrow> bool \<Rightarrow> error + elfremove" where
  "write_dynamic_tag self target_tag value subtract_from_orig =
     (case dynamic self of
        None \<Rightarrow> Inl AttributeError
      | Some dyn \<Rightarrow>
          (case found_tag (tags (w_section dyn)) target_tag 0 of
             [] \<Rightarrow> Inr self
           | idx # _ \<Rightarrow>
               (case modify_dynamic_tag_at_index dyn idx
                       (\<lambda>x. Inr (if subtract_from_orig then x - value else value)) of
                  Inl e \<Rightarrow> Inl e
                | Inr dyn' \<Rightarrow> Inr (self\<lparr>dynamic := Some dyn'\<rparr>))))"

definition shrink_dynamic_tag :: "elfremove \<Rightarrow> string \<Rightarrow> int \<Rightarrow> error + elfremove" where
  "shrink_dynamic_tag self target_tag amount = write_dynamic_tag self target_tag amount True"


section \<open>Binary search\<close>

text \<open>
  \<^verbatim>\<open>bisect.bisect_left(a, x, lo)\<close> and \<^verbatim>\<open>bisect.bisect(a, x)\<close> of the Python library, as
  the loops the library runs.
\<close>

function bisect_left_loop :: "'a::linorder list \<Rightarrow> 'a \<Rightarrow> nat \<Rightarrow> nat \<Rightarrow> nat" where
  "bisect_left_loop a x lo hi =
     (if lo < hi
      then (if a ! ((lo + hi) div 2) < x
            then bisect_left_loop a x ((lo + hi) div 2 + 1) hi
            else bisect_left_loop a x lo ((lo + hi) div 2))
      else lo)"
  by pat_completeness auto
termination
  by (relation "measure (\<lambda>(a, x, lo, hi). hi - lo)") auto

definition bisect_left :: "'a::linorder list \<Rightarrow> 'a \<Rightarrow> nat \<Rightarrow> nat" where
  "bisect_left a x lo = bisect_left_loop a x lo (length a)"

function bisect_right_loop :: "'a::linorder list \<Rightarrow> 'a \<Rightarrow> nat \<Rightarrow> nat \<Rightarrow> nat" where
  "bisect_right_loop a x lo hi =
     (if lo < hi
      then (if x < a ! ((lo + hi) div 2)
            then bisect_right_loop a x lo ((lo + hi) div 2)
            else bisect_right_loop a x ((lo + hi) div 2 + 1) hi)
      else lo)"
  by pat_completeness auto
termination
  by (relation "measure (\<lambda>(a, x, lo, hi). hi - lo)") auto

definition bisect_right :: "'a::linorder list \<Rightarrow> 'a \<Rightarrow> nat" where
  "bisect_right a x = bisect_right_loop a x 0 (length a)"


section \<open>SysV hash table\<close>

text \<open>
  \<^verbatim>\<open>_elfhash\<close> on 32-bit words: the mask \<^verbatim>\<open>h & 0xFFFFFFFF\<close> is the wrap-around of the
  word addition.  A name is a string of characters below 256.
\<close>

definition elfhash_step :: "char \<Rightarrow> 32 word \<Rightarrow> 32 word" where
  "elfhash_step c h =
     (let h = push_bit 4 h + of_nat (of_char c);
          g = h AND 0xF0000000;
          h = (if g \<noteq> 0 then h XOR drop_bit 24 g else h)
      in h AND NOT g)"

definition elfhash :: "string \<Rightarrow> int" where
  "elfhash func_name = uint (fold elfhash_step func_name 0)"

definition options :: "int list" where
  "options = [1, 3, 17, 37, 67, 97, 131, 197, 263, 521, 1031, 2053, 4099,
              8209, 16411, 32771, 65537, 131101, 262147]"

text \<open>
  \<^verbatim>\<open>_calc_nbuckets\<close>.  With an insertion point of 0 the index is \<open>-1\<close>, which in Python
  is the last element.
\<close>

definition calc_nbuckets :: "int \<Rightarrow> int" where
  "calc_nbuckets n_hashes =
     (let ins_point = bisect_right options n_hashes
      in if ins_point = 0 then last options else options ! (ins_point - 1))"

text \<open>
  The loop of \<^verbatim>\<open>_recreate_elf_hash\<close> over \<^verbatim>\<open>enumerate(iter_symbols())\<close>; the two
  dictionaries are maps.
\<close>

fun elf_hash_loop ::
  "int \<Rightarrow> (nat \<times> string) list \<Rightarrow> (int \<rightharpoonup> nat) \<times> (nat \<rightharpoonup> nat)
    \<Rightarrow> (int \<rightharpoonup> nat) \<times> (nat \<rightharpoonup> nat)" where
  "elf_hash_loop nbuckets [] (new_buckets, new_chains) = (new_buckets, new_chains)"
| "elf_hash_loop nbuckets ((idx, name) # rest) (new_buckets, new_chains) =
     (let bucket = elfhash name mod nbuckets
      in elf_hash_loop nbuckets rest
           (new_buckets(bucket \<mapsto> idx),
            new_chains(idx \<mapsto> (case new_buckets bucket of None \<Rightarrow> 0 | Some i \<Rightarrow> i))))"

definition dict_get :: "('k \<rightharpoonup> nat) \<Rightarrow> 'k \<Rightarrow> int" where
  "dict_get d k = (case d k of None \<Rightarrow> 0 | Some v \<Rightarrow> int v)"

text \<open>
  \<^verbatim>\<open>_recreate_elf_hash\<close>.  \<^verbatim>\<open>to_bytes(4, ...)\<close> raises \<^verbatim>\<open>OverflowError\<close> for a value
  that is negative or does not fit 32 bits.  The table written to the file is kept as
  the new contents of the section.
\<close>

definition fits_u32 :: "int \<Rightarrow> bool" where
  "fits_u32 v = (0 \<le> v \<and> v < 2 ^ 32)"

definition recreate_elf_hash ::
  "elfremove \<Rightarrow> symtab_section section_wrapper \<Rightarrow> nat \<Rightarrow> error + elfremove" where
  "recreate_elf_hash self dynsym_w n_removed_syms =
     (case elf_hash self of
        None \<Rightarrow> Inr self
      | Some eh \<Rightarrow>
          (let nchains = h_nchains (w_section eh) - int n_removed_syms;
               nbuckets = calc_nbuckets nchains;
               (new_buckets, new_chains) =
                  elf_hash_loop nbuckets
                    (enumerate 0 (map sym_name (symbols (w_section dynsym_w))))
                    (Map.empty, Map.empty);
               out_buckets = map (\<lambda>i. dict_get new_buckets (int i)) [0..<nat nbuckets];
               out_chains = map (\<lambda>i. dict_get new_chains i) [0..<nat nchains]
           in if \<not> fits_u32 nbuckets \<or> \<not> fits_u32 nchains
                 \<or> \<not> list_all fits_u32 out_buckets \<or> \<not> list_all fits_u32 out_chains
              then Inl OverflowError
              else case set_section_size
                          (eh\<lparr>w_section := (w_section eh)
                                \<lparr>h_nbuckets := nbuckets, h_nchains := nchains,
                                 h_buckets := out_buckets, h_chains := out_chains\<rparr>\<rparr>)
                          (nat ((2 + nchains + nbuckets) * 4)) False of
                     Inl e \<Rightarrow> Inl e
                   | Inr eh' \<Rightarrow> Inr (self\<lparr>elf_hash := Some eh'\<rparr>)))"

text \<open>
  The head of bucket \<open>b\<close> after the symbols \<open>0, \<dots>, k - 1\<close> are inserted: the last of
  them that hashes to \<open>b\<close>.
\<close>

fun bucket_head :: "(nat \<Rightarrow> int) \<Rightarrow> int \<Rightarrow> nat \<Rightarrow> nat option" where
  "bucket_head hb b 0 = None"
| "bucket_head hb b (Suc k) = (if hb k = b then Some k else bucket_head hb b k)"

definition head_or_0 :: "nat option \<Rightarrow> int" where
  "head_or_0 h = (case h of None \<Rightarrow> 0 | Some i \<Rightarrow> int i)"

declare bisect_left_loop.simps [simp del] bisect_right_loop.simps [simp del]

text \<open>The bucket of the \<open>i\<close>-th symbol name.\<close>

definition bucket_of :: "int \<Rightarrow> string list \<Rightarrow> nat \<Rightarrow> int" where
  "bucket_of nbuckets names i = elfhash (names ! i) mod nbuckets"

text \<open>Example: a table of four symbols whose \<^verbatim>\<open>.hash\<close> section still counts five.\<close>

definition hashed_dynsym :: "symtab_section section_wrapper" where
  "hashed_dynsym =
     \<lparr>w_section = \<lparr>sh_name = ''.dynsym'', sh_offset = 512, sh_size = 96, sh_entsize = 24,
                    sh_info = 1,
                    symbols = [mk_entry [] 0 0 0 0, mk_entry ''foo'' 1 4096 42 18,
                               mk_entry ''bar'' 5 4200 16 18, mk_entry ''baz'' 9 4300 16 18]\<rparr>,
      w_index = 4, w_version = 1\<rparr>"

definition elf_hashed :: elfremove where
  "elf_hashed = empty_elf\<lparr>elf_hash := Some
     \<lparr>w_section = \<lparr>sh_name = ''.hash'', sh_offset = 256, sh_size = 40, sh_entsize = 4,
                    sh_info = 0, h_nbuckets = 3, h_nchains = 5,
                    h_buckets = [3, 0, 4], h_chains = [0, 0, 1, 2, 0]\<rparr>,
      w_index = 2, w_version = 0\<rparr>\<rparr>"

section \<open>String table compactor\<close>

text \<open>
  \<open>strtab\<close> of the \<^verbatim>\<open>.dynstr\<close> section holds the bytes of the file from the section's
  offset on, so that a read that starts in the section and runs past its end is a read
  of this list.  \<^verbatim>\<open>_get_string_range\<close> takes the length of the C string at \<open>start\<close>; the
  library's parser returns \<^verbatim>\<open>None\<close> when no terminator follows, and \<^verbatim>\<open>len(None)\<close>
  is a type error.
\<close>

definition get_string_range :: "byte list \<Rightarrow> nat \<Rightarrow> error + nat \<times> nat" where
  "get_string_range strtab_bytes start =
     (let rest = drop start strtab_bytes
      in if 0 \<in> set rest
         then Inr (start, start + length (takeWhile (\<lambda>b. b \<noteq> 0) rest))
         else Inl TypeError)"

text \<open>
  \<^verbatim>\<open>self._f.read(n)\<close> after a seek to \<open>start\<close>: at most \<open>n\<close> bytes, everything to the end
  of the file for a negative \<open>n\<close>.
\<close>

definition read_at :: "byte list \<Rightarrow> nat \<Rightarrow> int \<Rightarrow> byte list" where
  "read_at bytes start n = (if n < 0 then drop start bytes else take (nat n) (drop start bytes))"

text \<open>
  One decrement of the reference count of a range in the \<^verbatim>\<open>defaultdict(int)\<close>: a missing
  key counts as 0, a count that reaches 0 deletes the key.
\<close>

definition dec_range ::
  "((nat \<times> nat) \<times> int) list \<Rightarrow> nat \<times> nat \<Rightarrow> ((nat \<times> nat) \<times> int) list" where
  "dec_range ranges key =
     (let count = (case map_of ranges key of None \<Rightarrow> 0 | Some c \<Rightarrow> c) - 1
      in if count = 0 then AList.delete key ranges else AList.update key count ranges)"

fun dec_removed ::
  "byte list \<Rightarrow> symbol_wrapper list \<Rightarrow> ((nat \<times> nat) \<times> int) list
    \<Rightarrow> error + ((nat \<times> nat) \<times> int) list" where
  "dec_removed strtab_bytes [] ranges = Inr ranges"
| "dec_removed strtab_bytes (symbol # rest) ranges =
     (case get_string_range strtab_bytes (sw_name_offset symbol) of
        Inl e \<Rightarrow> Inl e
      | Inr key \<Rightarrow> dec_removed strtab_bytes rest (dec_range ranges key))"

text \<open>The variables of the loop of \<^verbatim>\<open>_build_new_dynstr\<close>.\<close>

record dynstr_state =
  ds_index_map :: "nat \<rightharpoonup> int"
  ds_out_bytes :: "byte list"
  ds_last_start :: int
  ds_last_end :: int

text \<open>
  A loop over a list whose body may raise: the first error ends it.
\<close>

fun fold_err :: "('a \<Rightarrow> 's \<Rightarrow> error + 's) \<Rightarrow> 'a list \<Rightarrow> 's \<Rightarrow> error + 's" where
  "fold_err body [] s = Inr s"
| "fold_err body (x # xs) s =
     (case body x s of Inl e \<Rightarrow> Inl e | Inr s' \<Rightarrow> fold_err body xs s')"

text \<open>
  The loop body for the range \<open>(start, end)\<close> whose predecessor in the sorted list
  (\<^verbatim>\<open>sorted_dynstr_ranges[idx]\<close>) is \<open>(prev_start, prev_end)\<close>.
\<close>

definition dynstr_step ::
  "byte list \<Rightarrow> (nat \<times> nat) \<times> (nat \<times> nat) \<Rightarrow> dynstr_state \<Rightarrow> error + dynstr_state" where
  "dynstr_step strtab_bytes pc st =
     (case pc of ((prev_start, prev_end), (start, end_r)) \<Rightarrow>
        if ds_index_map st start \<noteq> None then Inr st
        else if start < prev_end
        then (if prev_end \<noteq> end_r then Inl AssertionError
              else let offset_in_string = int start - int prev_start;
                       last_start = ds_last_start st + offset_in_string
                   in Inr (st\<lparr>ds_last_start := last_start,
                              ds_index_map := (ds_index_map st)(start \<mapsto> last_start)\<rparr>))
        else let target_start = ds_last_end st + 1;
                 length_r = int end_r - int start
             in Inr \<lparr>ds_index_map = (ds_index_map st)(start \<mapsto> target_start),
                     ds_out_bytes = ds_out_bytes st @ read_at strtab_bytes start (length_r + 1),
                     ds_last_start = target_start,
                     ds_last_end = target_start + length_r\<rparr>)"

definition dynstr_init :: "nat \<times> nat \<Rightarrow> dynstr_state" where
  "dynstr_init first =
     \<lparr>ds_index_map = [fst first \<mapsto> int (fst first)], ds_out_bytes = [0],
      ds_last_start = int (fst first), ds_last_end = int (snd first)\<rparr>"

text \<open>
  The state after the first \<open>k\<close> ranges of \<^verbatim>\<open>sorted_dynstr_ranges[1:]\<close> have been
  handled.
\<close>

definition dynstr_prefix ::
  "byte list \<Rightarrow> (nat \<times> nat) list \<Rightarrow> nat \<Rightarrow> error + dynstr_state" where
  "dynstr_prefix strtab_bytes sorted_dynstr_ranges k =
     fold_err (dynstr_step strtab_bytes)
       (take k (zip sorted_dynstr_ranges (tl sorted_dynstr_ranges)))
       (dynstr_init (hd sorted_dynstr_ranges))"

text \<open>
  \<^verbatim>\<open>_build_new_dynstr\<close>; the result is \<^verbatim>\<open>(None, None)\<close> without a \<^verbatim>\<open>.dynstr\<close>
  section.  The decremented dictionary stays in the object.
\<close>

definition build_new_dynstr ::
  "elfremove \<Rightarrow> symbol_wrapper list
    \<Rightarrow> error + elfremove \<times> (byte list \<times> (nat \<rightharpoonup> int)) option" where
  "build_new_dynstr self removed_symbols =
     (case dynstr self of
        None \<Rightarrow> Inr (self, None)
      | Some ds \<Rightarrow>
          (case dec_removed (strtab (w_section ds)) removed_symbols (dynstr_ranges self) of
             Inl e \<Rightarrow> Inl e
           | Inr ranges \<Rightarrow>
               (let sorted_dynstr_ranges = sort (map fst ranges)
                in if sorted_dynstr_ranges = [] then Inl IndexError
                   else case dynstr_prefix (strtab (w_section ds)) sorted_dynstr_ranges
                               (length sorted_dynstr_ranges - 1) of
                          Inl e \<Rightarrow> Inl e
                        | Inr st \<Rightarrow>
                            Inr (self\<lparr>dynstr_ranges := ranges\<rparr>,
                                 Some (ds_out_bytes st, ds_index_map st)))))"

text \<open>Example: the strings \<^verbatim>\<open>getline\<close> (with the suffix \<^verbatim>\<open>line\<close>) and \<^verbatim>\<open>foo\<close>.\<close>

definition getline_strtab :: "byte list" where
  "getline_strtab = [0, 103, 101, 116, 108, 105, 110, 101, 0, 102, 111, 111, 0]"

definition elf_strings :: elfremove where
  "elf_strings = empty_elf
     \<lparr>dynstr := Some \<lparr>w_section = \<lparr>sh_name = ''.dynstr'', sh_offset = 768, sh_size = 13,
                                     sh_entsize = 0, sh_info = 0, strtab = getline_strtab\<rparr>,
                        w_index = 6, w_version = 0\<rparr>,
      dynstr_ranges := [((0, 0), 1), ((1, 8), 1), ((4, 8), 1), ((9, 12), 1)]\<rparr>"

section \<open>Bytes\<close>

text \<open>
  \<^verbatim>\<open>struct.pack\<close> and \<^verbatim>\<open>struct.unpack\<close> of one integer in the file's byte order; a
  value out of range is a \<^verbatim>\<open>struct.error\<close>.
\<close>

definition bytes_of :: "bool \<Rightarrow> nat \<Rightarrow> int \<Rightarrow> byte list" where
  "bytes_of little n v =
     (let le = map (\<lambda>i. word_of_int (v div 256 ^ i)) [0..<n]
      in if little then le else rev le)"

definition pack_unsigned :: "bool \<Rightarrow> nat \<Rightarrow> int \<Rightarrow> error + byte list" where
  "pack_unsigned little n v =
     (if 0 \<le> v \<and> v < 2 ^ (8 * n) then Inr (bytes_of little n v) else Inl StructError)"

definition pack_signed :: "bool \<Rightarrow> nat \<Rightarrow> int \<Rightarrow> error + byte list" where
  "pack_signed little n v =
     (if - (2 ^ (8 * n - 1)) \<le> v \<and> v < 2 ^ (8 * n - 1)
      then Inr (bytes_of little n (v mod 2 ^ (8 * n))) else Inl StructError)"

definition unpack_unsigned :: "bool \<Rightarrow> byte list \<Rightarrow> int" where
  "unpack_unsigned little bs =
     foldr (\<lambda>b acc. uint b + 256 * acc) (if little then bs else rev bs) 0"

text \<open>
  A write at an offset: the bytes replace what was there, and a gap between the end of
  the file and the offset is filled with zeroes.
\<close>

definition write_at :: "byte list \<Rightarrow> nat \<Rightarrow> byte list \<Rightarrow> byte list" where
  "write_at bytes off new =
     take off bytes @ replicate (off - length bytes) 0 @ new @ drop (off + length new) bytes"


section \<open>Relocation compactor\<close>

text \<open>
  The implicit addend of a \<^verbatim>\<open>.rel\<close> entry is the word at the file offset of
  \<^verbatim>\<open>r_offset\<close>; \<^verbatim>\<open>address_offsets\<close> of the library yields the offsets of an address in
  the loadable segments that hold it, and \<^verbatim>\<open>next\<close> of an empty iterator raises.
\<close>

definition address_offsets :: "(nat \<times> nat \<times> nat) list \<Rightarrow> nat \<Rightarrow> nat list" where
  "address_offsets segs start =
     map (\<lambda>(p_vaddr, p_filesz, p_offset). start - p_vaddr + p_offset)
       (filter (\<lambda>(p_vaddr, p_filesz, p_offset).
                  p_vaddr \<le> start \<and> start + 1 \<le> p_vaddr + p_filesz) segs)"

definition reloc_get_addend_RELA :: "elfremove \<Rightarrow> reloc \<Rightarrow> error + int" where
  "reloc_get_addend_RELA self reloc = Inr (r_addend reloc)"

definition reloc_set_addend_RELA :: "elfremove \<Rightarrow> reloc \<Rightarrow> int \<Rightarrow> error + elfremove \<times> reloc" where
  "reloc_set_addend_RELA self reloc value = Inr (self, reloc\<lparr>r_addend := value\<rparr>)"

definition reloc_get_addend_REL :: "elfremove \<Rightarrow> reloc \<Rightarrow> error + int" where
  "reloc_get_addend_REL self reloc =
     (case address_offsets (segments self) (r_offset reloc) of
        [] \<Rightarrow> Inl StopIteration
      | off # _ \<Rightarrow>
          (let word = read_at (f_stream self) off 4
           in if length word \<noteq> 4 then Inl StructError
              else Inr (unpack_unsigned (little_endian self) word)))"

definition reloc_set_addend_REL :: "elfremove \<Rightarrow> reloc \<Rightarrow> int \<Rightarrow> error + elfremove \<times> reloc" where
  "reloc_set_addend_REL self reloc value =
     (case address_offsets (segments self) (r_offset reloc) of
        [] \<Rightarrow> Inl StopIteration
      | off # _ \<Rightarrow>
          (case pack_unsigned (little_endian self) 4 value of
             Inl e \<Rightarrow> Inl e
           | Inr addend \<Rightarrow> Inr (self\<lparr>f_stream := write_at (f_stream self) off addend\<rparr>, reloc)))"

definition list_pop :: "nat \<Rightarrow> 'a list \<Rightarrow> 'a list" where
  "list_pop i xs = take i xs @ drop (Suc i) xs"

text \<open>
  The loop of \<^verbatim>\<open>_edit_rel_sect\<close>.  \<^verbatim>\<open>reloc_list\<close> and \<^verbatim>\<open>sort_keys\<close> are popped together,
  so they are one list of pairs \<open>rk\<close>; \<^verbatim>\<open>list_len\<close> is its length.  The branch that
  searches forward with \<^verbatim>\<open>bisect_left\<close> and continues repeats the same state for ever
  when the search returns \<^verbatim>\<open>cur_idx\<close> itself: this is \<open>Diverges\<close>, and it is the only
  way the loop can fail to end.
\<close>

function edit_rel_loop ::
  "(elfremove \<Rightarrow> reloc \<Rightarrow> error + int) \<Rightarrow> (elfremove \<Rightarrow> reloc \<Rightarrow> int \<Rightarrow> error + elfremove \<times> reloc)
    \<Rightarrow> bool \<Rightarrow> bool \<Rightarrow> int \<Rightarrow> int \<Rightarrow> elfremove \<Rightarrow> (reloc \<times> int \<times> int) list \<Rightarrow> nat \<Rightarrow> nat
    \<Rightarrow> error + elfremove \<times> (reloc \<times> int \<times> int) list \<times> nat" where
  "edit_rel_loop getter_addend setter_addend push is_symtab sym_nr sym_addr self rk removed cur_idx =
     (if cur_idx < length rk
      then (if \<not> is_symtab \<and> r_info_sym (fst (rk ! cur_idx)) = sym_nr
            then (if push
                  then edit_rel_loop getter_addend setter_addend push is_symtab sym_nr sym_addr
                         self (list_pop cur_idx rk) (removed + 1) cur_idx
                  else case setter_addend self ((fst (rk ! cur_idx))\<lparr>r_info_sym := 0\<rparr>) 0 of
                         Inl e \<Rightarrow> Inl e
                       | Inr (self', reloc') \<Rightarrow>
                           edit_rel_loop getter_addend setter_addend push is_symtab sym_nr
                             sym_addr self' (rk[cur_idx := (reloc', snd (rk ! cur_idx))])
                             removed (cur_idx + 1))
            else case getter_addend self (fst (rk ! cur_idx)) of
                   Inl e \<Rightarrow> Inl e
                 | Inr addend \<Rightarrow>
                     if addend = sym_addr \<and> sym_addr > 0
                     then (if push
                           then edit_rel_loop getter_addend setter_addend push is_symtab sym_nr
                                  sym_addr self (list_pop cur_idx rk) (removed + 1) cur_idx
                           else case setter_addend self
                                       ((fst (rk ! cur_idx))\<lparr>r_info_sym := 0\<rparr>) 0 of
                                  Inl e \<Rightarrow> Inl e
                                | Inr (self', reloc') \<Rightarrow>
                                    edit_rel_loop getter_addend setter_addend push is_symtab
                                      sym_nr sym_addr self'
                                      (rk[cur_idx := (reloc', snd (rk ! cur_idx))])
                                      removed (cur_idx + 1))
                     else if is_symtab
                             \<and> (addend > sym_addr \<or> r_info_sym (fst (rk ! cur_idx)) > 0)
                     then Inr (self, rk, removed)
                     else if r_info_sym (fst (rk ! cur_idx)) > sym_nr
                     then Inr (self, rk, removed)
                     else if \<not> is_symtab \<and> push
                     then (if bisect_left (map snd rk) (sym_nr, 0) cur_idx \<le> cur_idx
                           then Inl Diverges
                           else edit_rel_loop getter_addend setter_addend push is_symtab sym_nr
                                  sym_addr self rk removed
                                  (bisect_left (map snd rk) (sym_nr, 0) cur_idx))
                     else edit_rel_loop getter_addend setter_addend push is_symtab sym_nr
                            sym_addr self rk removed (cur_idx + 1))
      else Inr (self, rk, removed))"
  by pat_completeness auto
termination
  by (relation "measure (\<lambda>(g, s, p, i, n, a, self, rk, removed, cur_idx). length rk - cur_idx)")
     (auto simp: list_pop_def)

declare edit_rel_loop.simps [simp del]

text \<open>
  \<^verbatim>\<open>_edit_rel_sect\<close>: the two searches, then the loop.  \<^verbatim>\<open>sort_keys[cur_idx]\<close> raises
  when the first search returns the length of the list.
\<close>

definition edit_rel_sect ::
  "elfremove \<Rightarrow> (reloc \<times> int \<times> int) list \<Rightarrow> int \<Rightarrow> int
    \<Rightarrow> (elfremove \<Rightarrow> reloc \<Rightarrow> error + int) \<Rightarrow> (elfremove \<Rightarrow> reloc \<Rightarrow> int \<Rightarrow> error + elfremove \<times> reloc)
    \<Rightarrow> bool \<Rightarrow> bool \<Rightarrow> error + elfremove \<times> (reloc \<times> int \<times> int) list \<times> nat" where
  "edit_rel_sect self rk sym_nr sym_addr getter_addend setter_addend push is_symtab =
     (let cur_idx = bisect_left (map snd rk) (0, sym_addr) 0
      in if \<not> is_symtab
         then (if length rk \<le> cur_idx then Inl IndexError
               else edit_rel_loop getter_addend setter_addend push is_symtab sym_nr sym_addr
                      self rk 0
                      (if snd (map snd rk ! cur_idx) \<noteq> sym_addr
                       then bisect_left (map snd rk) (sym_nr, 0) cur_idx else cur_idx))
         else edit_rel_loop getter_addend setter_addend push is_symtab sym_nr sym_addr
                self rk 0 cur_idx)"

text \<open>The loop over the symbols to remove, with the two lookup sets.\<close>

fun remove_symbols_loop ::
  "(elfremove \<Rightarrow> reloc \<Rightarrow> error + int) \<Rightarrow> (elfremove \<Rightarrow> reloc \<Rightarrow> int \<Rightarrow> error + elfremove \<times> reloc)
    \<Rightarrow> bool \<Rightarrow> bool \<Rightarrow> symbol_wrapper list
    \<Rightarrow> elfremove \<times> (reloc \<times> int \<times> int) list \<times> nat \<times> int set \<times> int set
    \<Rightarrow> error + elfremove \<times> (reloc \<times> int \<times> int) list \<times> nat" where
  "remove_symbols_loop getter_addend setter_addend push is_symtab []
     (self, rk, removed, sym_nrs, sym_addrs) = Inr (self, rk, removed)"
| "remove_symbols_loop getter_addend setter_addend push is_symtab (symbol # rest)
     (self, rk, removed, sym_nrs, sym_addrs) =
     (if int (sw_value symbol) \<notin> sym_addrs \<and> (is_symtab \<or> int (sw_index symbol) \<notin> sym_nrs)
      then remove_symbols_loop getter_addend setter_addend push is_symtab rest
             (self, rk, removed, sym_nrs, sym_addrs)
      else case edit_rel_sect self rk (int (sw_index symbol)) (int (sw_value symbol))
                  getter_addend setter_addend push is_symtab of
             Inl e \<Rightarrow> Inl e
           | Inr (self', rk', n) \<Rightarrow>
               remove_symbols_loop getter_addend setter_addend push is_symtab rest
                 (self', rk', removed + n,
                  (if \<not> is_symtab then sym_nrs - {int (sw_index symbol)} else sym_nrs),
                  sym_addrs - {int (sw_value symbol)}))"

text \<open>The addends of all entries, read in table order; the first failure raises.\<close>

fun read_addends ::
  "(elfremove \<Rightarrow> reloc \<Rightarrow> error + int) \<Rightarrow> elfremove \<Rightarrow> reloc list
    \<Rightarrow> error + (reloc \<times> int \<times> int) list" where
  "read_addends getter_addend self [] = Inr []"
| "read_addends getter_addend self (reloc # rest) =
     (case getter_addend self reloc of
        Inl e \<Rightarrow> Inl e
      | Inr addend \<Rightarrow>
          (case read_addends getter_addend self rest of
             Inl e \<Rightarrow> Inl e
           | Inr relocs \<Rightarrow> Inr ((reloc, r_info_sym reloc, addend) # relocs)))"

text \<open>
  The first part of \<^verbatim>\<open>_batch_remove_relocs\<close>, up to the end of the loop over the
  symbols: the relocation list in sorted order with the matching entries removed (or
  zeroed), and the number of removed entries.  \<^verbatim>\<open>zip(*relocs)\<close> of an empty list cannot
  be unpacked into three names.
\<close>

definition relocs_after_removal ::
  "elfremove \<Rightarrow> rel_section \<Rightarrow> symbol_wrapper list \<Rightarrow> bool \<Rightarrow> bool
    \<Rightarrow> error + elfremove \<times> reloc list \<times> nat" where
  "relocs_after_removal self sec symbol_list push is_symtab =
     (let getter_addend = (if rs_is_RELA sec then reloc_get_addend_RELA else reloc_get_addend_REL);
          setter_addend = (if rs_is_RELA sec then reloc_set_addend_RELA else reloc_set_addend_REL)
      in case read_addends getter_addend self (rs_relocs sec) of
           Inl e \<Rightarrow> Inl e
         | Inr relocs \<Rightarrow>
             (let relocs = sort_key snd relocs
              in if relocs = [] then Inl ValueError
                 else case remove_symbols_loop getter_addend setter_addend push is_symtab
                             symbol_list
                             (self, relocs, 0, set (map (\<lambda>x. fst (snd x)) relocs),
                              set (map (\<lambda>x. snd (snd x)) relocs)) of
                        Inl e \<Rightarrow> Inl e
                      | Inr (self', rk, removed) \<Rightarrow> Inr (self', map fst rk, removed)))"

text \<open>
  The loop that renumbers \<^verbatim>\<open>r_info_sym\<close>.  \<open>k\<close> is \<^verbatim>\<open>cur_reloc_idx + 1\<close>, so the loop
  runs while \<open>k > 0\<close>.
\<close>

definition renumbered :: "nat \<Rightarrow> reloc \<Rightarrow> int \<Rightarrow> reloc" where
  "renumbered ent_size reloc new_sym =
     reloc\<lparr>r_info := (if ent_size = 8
                       then push_bit 8 new_sym OR (r_info_type reloc AND 0xFF)
                       else push_bit 32 new_sym OR (r_info_type reloc AND 0xFFFFFFFF)),
            r_info_sym := new_sym\<rparr>"

function fix_loop ::
  "bool \<Rightarrow> nat \<Rightarrow> symbol_wrapper list \<Rightarrow> nat \<Rightarrow> symbol_wrapper \<Rightarrow> int \<Rightarrow> nat \<Rightarrow> reloc list
    \<Rightarrow> error + reloc list" where
  "fix_loop push ent_size symbol_list cur_symbol_idx cur_symbol num_earlier_removed_symbols k
     reloc_list =
     (if k = 0 then Inr reloc_list
      else if r_info_sym (reloc_list ! (k - 1)) = 0 \<and> push then Inr reloc_list
      else if r_info_sym (reloc_list ! (k - 1)) \<noteq> 0
              \<and> r_info_sym (reloc_list ! (k - 1)) \<le> int (sw_index cur_symbol)
      then (if num_earlier_removed_symbols - 1 = 0 then Inr reloc_list
            else if length symbol_list \<le> cur_symbol_idx + 1 then Inl IndexError
            else fix_loop push ent_size symbol_list (cur_symbol_idx + 1)
                   (symbol_list ! (cur_symbol_idx + 1)) (num_earlier_removed_symbols - 1) k
                   reloc_list)
      else fix_loop push ent_size symbol_list cur_symbol_idx cur_symbol
             num_earlier_removed_symbols (k - 1)
             (reloc_list[k - 1 := renumbered ent_size (reloc_list ! (k - 1))
                (if r_info_sym (reloc_list ! (k - 1)) = 0 then 0
                 else r_info_sym (reloc_list ! (k - 1)) - num_earlier_removed_symbols)]))"
  by pat_completeness auto
termination
  by (relation "measure (\<lambda>(p, e, symbol_list, cur_symbol_idx, c, n, k, r).
                            k + (length symbol_list - cur_symbol_idx))")
     auto

declare fix_loop.simps [simp del]

definition fix_symbol_indices ::
  "bool \<Rightarrow> bool \<Rightarrow> nat \<Rightarrow> symbol_wrapper list \<Rightarrow> reloc list \<Rightarrow> error + reloc list" where
  "fix_symbol_indices is_symtab push ent_size symbol_list reloc_list =
     (if \<not> is_symtab
      then (case symbol_list of
              [] \<Rightarrow> Inl IndexError
            | cur_symbol # _ \<Rightarrow>
                fix_loop push ent_size symbol_list 0 cur_symbol (int (length symbol_list))
                  (length reloc_list) reloc_list)
      else Inr reloc_list)"

text \<open>
  The relocation section an operation works on is the one stored in the object as
  \<^verbatim>\<open>_rel_dyn\<close> or as \<^verbatim>\<open>_rel_plt\<close>; what the operation changes in the section object is
  seen through that attribute afterwards.
\<close>

datatype rel_which = Rel_dyn | Rel_plt

definition get_rel :: "elfremove \<Rightarrow> rel_which \<Rightarrow> rel_section section_wrapper option" where
  "get_rel self which = (case which of Rel_dyn \<Rightarrow> rel_dyn self | Rel_plt \<Rightarrow> rel_plt self)"

definition put_rel :: "elfremove \<Rightarrow> rel_which \<Rightarrow> rel_section section_wrapper \<Rightarrow> elfremove" where
  "put_rel self which section =
     (case which of Rel_dyn \<Rightarrow> self\<lparr>rel_dyn := Some section\<rparr>
                  | Rel_plt \<Rightarrow> self\<lparr>rel_plt := Some section\<rparr>)"

text \<open>
  The original order is restored through a dictionary from \<^verbatim>\<open>r_offset\<close> to the entry;
  of two entries with one offset the later one stays in the dictionary.
\<close>

definition restore_order :: "reloc list \<Rightarrow> reloc list \<Rightarrow> reloc list" where
  "restore_order orig_reloc_list reloc_list =
     (let lookup_dict = map_of (rev (map (\<lambda>reloc. (r_offset reloc, reloc)) reloc_list))
      in concat (map (\<lambda>orig_reloc. case lookup_dict (r_offset orig_reloc) of
                                      None \<Rightarrow> [] | Some new_reloc \<Rightarrow> [new_reloc])
                     orig_reloc_list))"

text \<open>\<^verbatim>\<open>struct.pack\<close> with \<^verbatim>\<open>'QqQ'\<close> for an entry of 24 bytes and \<^verbatim>\<open>'Ii'\<close> otherwise.\<close>

definition pack_reloc :: "bool \<Rightarrow> nat \<Rightarrow> reloc \<Rightarrow> error + byte list" where
  "pack_reloc little ent_size reloc =
     (if ent_size = 24
      then (case (pack_unsigned little 8 (int (r_offset reloc)),
                  pack_signed little 8 (r_info reloc),
                  pack_unsigned little 8 (r_addend reloc)) of
              (Inr a, Inr b, Inr c) \<Rightarrow> Inr (a @ b @ c)
            | _ \<Rightarrow> Inl StructError)
      else (case (pack_unsigned little 4 (int (r_offset reloc)),
                  pack_signed little 4 (r_info reloc)) of
              (Inr a, Inr b) \<Rightarrow> Inr (a @ b)
            | _ \<Rightarrow> Inl StructError))"

fun pack_relocs :: "bool \<Rightarrow> nat \<Rightarrow> reloc list \<Rightarrow> error + byte list list" where
  "pack_relocs little ent_size [] = Inr []"
| "pack_relocs little ent_size (reloc # rest) =
     (case pack_reloc little ent_size reloc of
        Inl e \<Rightarrow> Inl e
      | Inr bytes \<Rightarrow>
          (case pack_relocs little ent_size rest of
             Inl e \<Rightarrow> Inl e
           | Inr relocs_bytes \<Rightarrow> Inr (bytes # relocs_bytes)))"

text \<open>
  The last part of \<^verbatim>\<open>_batch_remove_relocs\<close>: the entries are written at the start of
  the section, followed by the fill; the section size and the dynamic tags follow.
  Afterwards the library reads \<^verbatim>\<open>_size\<close> bytes of entries again: the survivors, and
  with a constant size also the copies of the last one.
\<close>

definition write_relocs ::
  "elfremove \<Rightarrow> rel_which \<Rightarrow> rel_section section_wrapper \<Rightarrow> nat \<Rightarrow> reloc list \<Rightarrow> nat \<Rightarrow> bool
    \<Rightarrow> error + elfremove" where
  "write_relocs self which section ent_size reloc_list removed push =
     (case pack_relocs (little_endian self) ent_size reloc_list of
        Inl e \<Rightarrow> Inl e
      | Inr relocs_bytes \<Rightarrow>
          if need_continuous_relocations self \<and> relocs_bytes = [] then Inl IndexError
          else
            (let fill_bytes = (if need_continuous_relocations self
                               then concat (replicate removed (last relocs_bytes))
                               else replicate (ent_size * removed) 0);
                 section = section\<lparr>w_section := (w_section section)
                   \<lparr>rs_raw := write_at (rs_raw (w_section section)) 0
                                (concat relocs_bytes @ fill_bytes)\<rparr>\<rparr>
             in case (if \<not> need_continuous_relocations self
                      then change_section_size section (ent_size * removed)
                      else Inr section) of
                  Inl e \<Rightarrow> Inl e
                | Inr section \<Rightarrow>
                    (let section = section\<lparr>w_section := (w_section section)
                           \<lparr>rs_size := (if \<not> need_continuous_relocations self
                                         then rs_size (w_section section) - int (ent_size * removed)
                                         else rs_size (w_section section)),
                            rs_relocs := reloc_list
                              @ (if need_continuous_relocations self
                                 then replicate removed (last reloc_list) else [])\<rparr>\<rparr>;
                         self = put_rel self which section
                     in if push
                        then (case (if \<not> need_continuous_relocations self
                                    then shrink_dynamic_tag self
                                           (if rs_is_RELA (w_section section)
                                            then ''DT_RELASZ'' else ''DT_RELSZ'')
                                           (int (ent_size * removed))
                                    else Inr self) of
                                Inl e \<Rightarrow> Inl e
                              | Inr self \<Rightarrow>
                                  write_dynamic_tag self
                                    (if rs_is_RELA (w_section section)
                                     then ''DT_RELACOUNT'' else ''DT_RELCOUNT'')
                                    (int (length (filter (\<lambda>reloc. r_info_type reloc = 8)
                                                    reloc_list)))
                                    False)
                        else Inr self)))"

text \<open>\<^verbatim>\<open>_batch_remove_relocs\<close>.\<close>

definition batch_remove_relocs ::
  "elfremove \<Rightarrow> symbol_wrapper list \<Rightarrow> rel_which \<Rightarrow> bool \<Rightarrow> bool \<Rightarrow> error + elfremove" where
  "batch_remove_relocs self symbol_list which push is_symtab =
     (case get_rel self which of
        None \<Rightarrow> Inr self
      | Some section \<Rightarrow>
          (let ent_size = (if rs_is_RELA (w_section section) then 24 else 8)
           in case relocs_after_removal self (w_section section) symbol_list push is_symtab of
                Inl e \<Rightarrow> Inl e
              | Inr (self, reloc_list, removed) \<Rightarrow>
                  (case fix_symbol_indices is_symtab push ent_size symbol_list reloc_list of
                     Inl e \<Rightarrow> Inl e
                   | Inr reloc_list \<Rightarrow>
                       write_relocs self which section ent_size
                         (restore_order (rs_relocs (w_section section)) reloc_list)
                         removed push)))"

text \<open>
  The number of removed symbols whose index in \<^verbatim>\<open>.dynsym\<close> is below \<open>r\<close>, and the
  symbol index a surviving entry is to get.
\<close>

definition removed_below :: "symbol_wrapper list \<Rightarrow> int \<Rightarrow> int" where
  "removed_below symbol_list r = int (length (filter (\<lambda>s. int (sw_index s) < r) symbol_list))"

definition new_index :: "symbol_wrapper list \<Rightarrow> int \<Rightarrow> int" where
  "new_index symbol_list r = (if r \<noteq> 0 then r - removed_below symbol_list r else 0)"

definition descending :: "symbol_wrapper list \<Rightarrow> bool" where
  "descending symbol_list = sorted (rev (map sw_index symbol_list))"

definition nonzero_sorted :: "reloc list \<Rightarrow> bool" where
  "nonzero_sorted reloc_list = sorted (filter (\<lambda>r. r \<noteq> 0) (map r_info_sym reloc_list))"


section \<open>Verified properties\<close>

subsection \<open>Symbol collector\<close>

lemma by_name_loop_filter:
  "by_name_loop symbol_list complement version ss i =
     map (symbol_ref version)
       (filter (\<lambda>p. selected (\<lambda>s. sym_name s \<in> symbol_list) complement (snd p))
          (enumerate i ss))"
  by (induction ss arbitrary: i) (auto simp: selected_def symbol_ref_def blacklist_def)

lemma by_address_loop_filter:
  "by_address_loop address_list complement version ss i =
     map (symbol_ref version)
       (filter (\<lambda>p. selected (\<lambda>s. st_value s \<in> address_list) complement (snd p))
          (enumerate i ss))"
  by (induction ss arbitrary: i) (auto simp: selected_def symbol_ref_def blacklist_def)

text \<open>
  C7.  Both collectors return, in table order, exactly the references of the entries that
  are functions, are not \<^verbatim>\<open>_init\<close> or \<^verbatim>\<open>_fini\<close>, and match the input set (do not match it
  under \<open>complement\<close>); each reference carries the section's current version.  Storing
  the result in the object changes neither table nor the file.
\<close>

theorem collector_exact:
  "collect_symbols_by_name section symbol_list complement =
     map (symbol_ref (w_version section))
       (filter (\<lambda>p. selected (\<lambda>s. sym_name s \<in> symbol_list) complement (snd p))
          (enumerate 0 (symbols (w_section section))))
   \<and> collect_symbols_by_address section address_list complement =
     map (symbol_ref (w_version section))
       (filter (\<lambda>p. selected (\<lambda>s. st_value s \<in> address_list) complement (snd p))
          (enumerate 0 (symbols (w_section section))))
   \<and> (\<forall>self'. collect_symbols_in_dynsym self names addrs complement = Inr self' \<longrightarrow>
          dynsym self' = dynsym self \<and> symtab self' = symtab self
          \<and> f_stream self' = f_stream self)
   \<and> (\<forall>self'. collect_symbols_in_symtab self names addrs complement = Inr self' \<longrightarrow>
          dynsym self' = dynsym self \<and> symtab self' = symtab self
          \<and> f_stream self' = f_stream self)"
  by (auto simp: collect_symbols_by_name_def collect_symbols_by_address_def
      by_name_loop_filter by_address_loop_filter collect_symbols_in_dynsym_def
      collect_symbols_in_symtab_def split: sum.splits)

theorem collector_exact_witness:
  "collect_symbols_by_name example_dynsym {''foo'', ''_init'', ''data''} False
     = [mk_symbol ''foo'' 1 1 4096 42 3]
   \<and> collect_symbols_by_address example_dynsym {4096} True
     = [mk_symbol ''bar'' 3 11 4200 16 3]
   \<and> (\<exists>self'. collect_symbols_in_dynsym (empty_elf\<lparr>dynsym := Some example_dynsym\<rparr>)
                 (Some {''foo''}) None False = Inr self'
              \<and> dynsym self' = Some example_dynsym)"
proof -
  let ?self = "empty_elf\<lparr>dynsym := Some example_dynsym\<rparr>"
  note inst = collector_exact [of example_dynsym "{''foo'', ''_init'', ''data''}" False
      "{4096}" ?self "Some {''foo''}" None]
  note inst' = collector_exact [of example_dynsym "{''foo'', ''_init'', ''data''}" True
      "{4096}" ?self "Some {''foo''}" None]
  have 1: "collect_symbols_by_name example_dynsym {''foo'', ''_init'', ''data''} False
     = [mk_symbol ''foo'' 1 1 4096 42 3]"
    using inst
    by (simp add: example_dynsym_def example_symbols_def mk_entry_def mk_symbol_def
        selected_def is_STT_FUNC_def symbol_ref_def)
  have 2: "collect_symbols_by_address example_dynsym {4096} True
     = [mk_symbol ''bar'' 3 11 4200 16 3]"
    using inst'
    by (simp add: example_dynsym_def example_symbols_def mk_entry_def mk_symbol_def
        selected_def is_STT_FUNC_def symbol_ref_def)
  obtain self' where 3: "collect_symbols_in_dynsym ?self (Some {''foo''}) None False = Inr self'"
    by (simp add: collect_symbols_in_dynsym_def collect_symbols_in_section_def)
  with inst have "dynsym self' = dynsym ?self" by blast
  with 3 have "\<exists>self'. collect_symbols_in_dynsym ?self (Some {''foo''}) None False = Inr self'
      \<and> dynsym self' = Some example_dynsym"
    by simp
  with 1 2 show ?thesis by blast
qed

subsection \<open>Kept byte ranges\<close>

lemma keep_loop_closed:
  "(case keep_loop addrs (pre @ [[s]]) (length pre) of
      (ranges, index) \<Rightarrow> ranges[index := ranges ! index @ [t]])
   = pre @ ranges_around s (filter (\<lambda>p. snd p \<noteq> 0) addrs) t"
proof (induction addrs arbitrary: pre s)
  case Nil
  show ?case by simp
next
  case (Cons a addrs)
  obtain start sz where a: "a = (start, sz)" by (cases a)
  show ?case
  proof (cases "sz = 0")
    case True
    with a Cons.IH [of pre s] show ?thesis by simp
  next
    case False
    have "(pre @ [[s]])[length pre := (pre @ [[s]]) ! length pre @ [start]] @ [[start + sz]]
          = (pre @ [[s, start]]) @ [[start + sz]]"
      by simp
    with a False Cons.IH [of "pre @ [[s, start]]" "start + sz"] show ?thesis
      by (simp add: Let_def)
  qed
qed

lemma get_keep_list_closed:
  "get_keep_list self total_size = ranges_around 0 (gaps self) total_size"
  using keep_loop_closed [where addrs = "get_function_addresses self" and pre = "[]"
      and s = 0 and t = total_size]
  by (simp add: get_keep_list_def gaps_def Let_def)

lemma ranges_around_hd: "hd (ranges_around s gs t) = [s, (case gs of [] \<Rightarrow> t | g # _ \<Rightarrow> fst g)]"
  by (cases gs) simp_all

lemma ranges_around_ne: "ranges_around s gs t \<noteq> []"
  by (cases gs) simp_all

lemma ranges_around_last: "last (last (ranges_around s gs t)) = t"
  by (induction gs arbitrary: s) (simp_all add: ranges_around_ne)

lemma ranges_around_length: "length (ranges_around s gs t) = length gs + 1"
  by (induction gs arbitrary: s) simp_all

lemma ranges_around_nth:
  "i < length gs \<Longrightarrow>
     last (ranges_around s gs t ! i) = fst (gs ! i)
     \<and> hd (ranges_around s gs t ! Suc i) = fst (gs ! i) + snd (gs ! i)"
proof (induction gs arbitrary: s i)
  case Nil
  then show ?case by simp
next
  case (Cons g gs)
  show ?case
  proof (cases i)
    case 0
    have "hd (hd (ranges_around (fst g + snd g) gs t)) = fst g + snd g"
      by (simp add: ranges_around_hd)
    moreover have "ranges_around (fst g + snd g) gs t \<noteq> []"
      by (cases gs) simp_all
    ultimately show ?thesis using 0 by (simp add: hd_conv_nth)
  next
    case (Suc j)
    with Cons.prems Cons.IH [of j "fst g + snd g"] show ?thesis by simp
  qed
qed

lemma ranges_around_sorted: "sorted (concat (ranges_around s gs t)) = fits s gs t"
proof (induction gs arbitrary: s)
  case Nil
  show ?case by simp
next
  case (Cons g gs)
  obtain r rs where r: "ranges_around (fst g + snd g) gs t = [fst g + snd g, r] # rs"
    by (cases gs) simp_all
  have le: "s \<le> fst g \<Longrightarrow> fst g + snd g \<le> x \<Longrightarrow> s \<le> x \<and> fst g \<le> x" for x
    by linarith
  have "sorted (concat (ranges_around s (g # gs) t))
        = (s \<le> fst g \<and> sorted (concat (ranges_around (fst g + snd g) gs t)))"
    using le by (fastforce simp: r)
  with Cons.IH [of "fst g + snd g"] show ?case by simp
qed

lemma update_set_subset: "set (AList.update k v d) \<subseteq> insert (k, v) (set d)"
  by (induction d) auto

lemma fold_dynsym_dict:
  "p \<in> set (fold (\<lambda>ent d. if sw_value ent = 0 \<and> sw_size ent = 0 then d
                            else AList.update (sw_value ent) (sw_size ent) d) coll d0)
   \<Longrightarrow> p \<in> set d0 \<or> (\<exists>ent \<in> set coll. sw_value ent = fst p \<and> sw_size ent = snd p)"
proof (induction coll arbitrary: d0)
  case Nil
  then show ?case by simp
next
  case (Cons ent coll)
  from Cons.IH [OF Cons.prems [simplified]]
  show ?case using update_set_subset [of "sw_value ent" "sw_size ent" d0]
    by (auto split: if_splits)
qed

lemma fold_local_dict:
  "p \<in> set (fold (\<lambda>func d. AList.update (fst func) (snd func) d) funcs d0)
   \<Longrightarrow> p \<in> set d0 \<or> p \<in> set funcs"
proof (induction funcs arbitrary: d0)
  case Nil
  then show ?case by simp
next
  case (Cons func funcs)
  from Cons.IH [OF Cons.prems [simplified]]
  show ?case using update_set_subset [of "fst func" "snd func" d0]
    by auto
qed

lemma fold_dynsym_distinct:
  "distinct (map fst d0) \<Longrightarrow>
   distinct (map fst (fold (\<lambda>ent d. if sw_value ent = 0 \<and> sw_size ent = 0 then d
                            else AList.update (sw_value ent) (sw_size ent) d) coll d0))"
  by (induction coll arbitrary: d0) (simp_all add: distinct_update)

lemma fold_local_distinct:
  "distinct (map fst d0) \<Longrightarrow>
   distinct (map fst (fold (\<lambda>func d. AList.update (fst func) (snd func) d) funcs d0))"
  by (induction funcs arbitrary: d0) (simp_all add: distinct_update)

lemma function_addresses_origin:
  assumes "p \<in> set (get_function_addresses self)"
  shows "(\<exists>ent \<in> set (collection_dynsym self). sw_value ent = fst p \<and> sw_size ent = snd p)
         \<or> p \<in> set (local_functions self)"
proof (cases "local_functions self = []")
  case True
  with assms fold_dynsym_dict [of p "collection_dynsym self" "[]"] show ?thesis
    by (simp add: get_function_addresses_def Let_def)
next
  case False
  with assms have "p \<in> set (fold (\<lambda>func d. AList.update (fst func) (snd func) d)
      (local_functions self)
      (fold (\<lambda>ent d. if sw_value ent = 0 \<and> sw_size ent = 0 then d
                       else AList.update (sw_value ent) (sw_size ent) d)
            (collection_dynsym self) []))"
    by (simp add: get_function_addresses_def Let_def)
  from fold_local_dict [OF this] fold_dynsym_dict [of p "collection_dynsym self" "[]"]
  show ?thesis by auto
qed

lemma function_addresses_distinct: "distinct (map fst (get_function_addresses self))"
proof -
  have "distinct (map fst (sort d))" if "distinct (map fst d)" for d :: "(nat \<times> nat) list"
  proof -
    from that show ?thesis by (simp add: distinct_map)
  qed
  then show ?thesis
    by (simp add: get_function_addresses_def Let_def fold_dynsym_distinct fold_local_distinct)
qed

lemma sorted_map_fst: "sorted (xs :: (nat \<times> nat) list) \<Longrightarrow> sorted (map fst xs)"
  by (induction xs) (auto simp: less_eq_prod_def)

lemma function_addresses_sorted: "sorted (map fst (get_function_addresses self))"
  by (simp add: get_function_addresses_def Let_def sorted_map_fst)

text \<open>
  C10 (amended).  The kept ranges lie around the removed functions of nonzero size taken
  by ascending address: the first range starts at 0, the last ends at \<open>total_size\<close>, the
  gap after range \<open>i\<close> is exactly the interval of the \<open>i\<close>-th such function, and a function
  of size zero opens no gap.  The ranges are ascending exactly when these functions
  neither overlap nor run past \<open>total_size\<close>.
\<close>

theorem get_keep_list_ranges:
  "get_keep_list self total_size = ranges_around 0 (gaps self) total_size
   \<and> length (get_keep_list self total_size) = length (gaps self) + 1
   \<and> hd (hd (get_keep_list self total_size)) = 0
   \<and> last (last (get_keep_list self total_size)) = total_size
   \<and> (\<forall>i < length (gaps self).
         last (get_keep_list self total_size ! i) = fst (gaps self ! i)
         \<and> hd (get_keep_list self total_size ! Suc i) = fst (gaps self ! i) + snd (gaps self ! i))
   \<and> (\<forall>g \<in> set (gaps self). snd g \<noteq> 0
         \<and> ((\<exists>ent \<in> set (collection_dynsym self). sw_value ent = fst g \<and> sw_size ent = snd g)
            \<or> g \<in> set (local_functions self)))
   \<and> sorted (map fst (gaps self)) \<and> distinct (map fst (gaps self))
   \<and> ranges_ascending (get_keep_list self total_size) = fits 0 (gaps self) total_size"
proof -
  have "sorted (map fst (gaps self))"
    using function_addresses_sorted [of self] by (simp add: gaps_def sorted_filter)
  moreover have "distinct (map fst (gaps self))"
    using function_addresses_distinct [of self] by (simp add: gaps_def distinct_map_filter)
  moreover have "\<forall>g \<in> set (gaps self). snd g \<noteq> 0
         \<and> ((\<exists>ent \<in> set (collection_dynsym self). sw_value ent = fst g \<and> sw_size ent = snd g)
            \<or> g \<in> set (local_functions self))"
    using function_addresses_origin [of _ self] by (auto simp: gaps_def)
  ultimately show ?thesis
    by (simp add: get_keep_list_closed ranges_around_hd ranges_around_last
        ranges_around_length ranges_around_nth ranges_around_sorted ranges_ascending_def)
qed

theorem get_keep_list_ranges_witness:
  "get_keep_list elf_disjoint 4096 = [[0, 16], [24, 32], [40, 4096]]
   \<and> ranges_ascending (get_keep_list elf_disjoint 4096)"
proof -
  have g: "gaps elf_disjoint = [(16, 8), (32, 8)]"
    by (simp add: gaps_def get_function_addresses_def elf_disjoint_def empty_elf_def
        mk_symbol_def Let_def)
  from get_keep_list_ranges [of elf_disjoint 4096] show ?thesis
    by (simp add: g ranges_ascending_def)
qed

text \<open>
  C10 as stated fails: with a function nested in another one the ranges are not in
  ascending order.
\<close>

theorem get_keep_list_counterexample:
  "get_keep_list elf_nested 4096 = [[0, 16], [272, 32], [40, 4096]]
   \<and> \<not> ranges_ascending (get_keep_list elf_nested 4096)"
  by (simp add: get_keep_list_def get_function_addresses_def elf_nested_def empty_elf_def
      mk_symbol_def Let_def ranges_ascending_def)

subsection \<open>SysV hash table\<close>

lemma bisect_right_loop_spec:
  assumes "sorted a" "lo \<le> hi" "hi \<le> length a"
    "\<forall>i<lo. a ! i \<le> x" "\<forall>i. hi \<le> i \<and> i < length a \<longrightarrow> x < a ! i"
  shows "lo \<le> bisect_right_loop a x lo hi \<and> bisect_right_loop a x lo hi \<le> hi
     \<and> (\<forall>i<bisect_right_loop a x lo hi. a ! i \<le> x)
     \<and> (\<forall>i. bisect_right_loop a x lo hi \<le> i \<and> i < length a \<longrightarrow> x < a ! i)"
  using assms
proof (induction a x lo hi rule: bisect_right_loop.induct)
  case (1 a x lo hi)
  let ?mid = "(lo + hi) div 2"
  note srt = "1.prems"(1) and le = "1.prems"(2) and len = "1.prems"(3)
    and below = "1.prems"(4) and above = "1.prems"(5)
  show ?case
  proof (cases "lo < hi")
    case False
    with le have "lo = hi" by simp
    with below above show ?thesis by (simp add: bisect_right_loop.simps [of a x hi hi])
  next
    case True
    then have mid: "lo \<le> ?mid" "?mid < hi" by auto
    show ?thesis
    proof (cases "x < a ! ?mid")
      case lt: True
      have above': "\<forall>i. ?mid \<le> i \<and> i < length a \<longrightarrow> x < a ! i"
      proof (intro allI impI)
        fix i assume "?mid \<le> i \<and> i < length a"
        with srt have "a ! ?mid \<le> a ! i" by (simp add: sorted_nth_mono)
        with lt show "x < a ! i" by simp
      qed
      from mid len have len': "?mid \<le> length a" by simp
      note IH = "1.IH"(1) [OF True lt srt mid(1) len' below above']
      have eq: "bisect_right_loop a x lo hi = bisect_right_loop a x lo ?mid"
        using True lt by (simp add: bisect_right_loop.simps [of a x lo hi])
      from IH mid show ?thesis unfolding eq by simp
    next
      case ge: False
      have below': "\<forall>i<?mid + 1. a ! i \<le> x"
      proof (intro allI impI)
        fix i assume "i < ?mid + 1"
        with srt mid len have "a ! i \<le> a ! ?mid"
          by (simp add: sorted_nth_mono)
        with ge show "a ! i \<le> x" by simp
      qed
      from mid have le': "?mid + 1 \<le> hi" by simp
      note IH = "1.IH"(2) [OF True ge srt le' len below' above]
      have eq: "bisect_right_loop a x lo hi = bisect_right_loop a x (?mid + 1) hi"
        using True ge by (simp add: bisect_right_loop.simps [of a x lo hi])
      from IH mid show ?thesis unfolding eq by simp
    qed
  qed
qed

lemma bisect_right_spec:
  assumes "sorted a"
  shows "bisect_right a x \<le> length a \<and> (\<forall>i<bisect_right a x. a ! i \<le> x)
     \<and> (\<forall>i. bisect_right a x \<le> i \<and> i < length a \<longrightarrow> x < a ! i)"
proof -
  have below: "\<forall>i<0. a ! i \<le> x" by simp
  have above: "\<forall>i. length a \<le> i \<and> i < length a \<longrightarrow> x < a ! i" by auto
  from bisect_right_loop_spec [OF assms le0 order_refl below above]
  show ?thesis unfolding bisect_right_def by blast
qed

lemma sorted_options: "sorted options"
  by (simp add: options_def)

lemma calc_nbuckets_largest:
  assumes "1 \<le> n"
  shows "calc_nbuckets n \<in> set options \<and> calc_nbuckets n \<le> n
     \<and> (\<forall>opt \<in> set options. opt \<le> n \<longrightarrow> opt \<le> calc_nbuckets n)"
proof -
  let ?r = "bisect_right options n"
  from bisect_right_spec [OF sorted_options, of n]
  have r_le: "?r \<le> length options"
    and below: "\<forall>i<?r. options ! i \<le> n"
    and above: "\<forall>i. ?r \<le> i \<and> i < length options \<longrightarrow> n < options ! i"
    by blast+
  have len: "0 < length options" and first: "options ! 0 = 1"
    by (simp_all add: options_def)
  have pos: "0 < ?r"
  proof (rule ccontr)
    assume "\<not> 0 < ?r"
    with above len have "n < options ! 0" by simp
    with first assms show False by simp
  qed
  then have calc: "calc_nbuckets n = options ! (?r - 1)"
    by (simp add: calc_nbuckets_def Let_def)
  from pos r_le have idx: "?r - 1 < length options" by simp
  have "options ! (?r - 1) \<le> n" using below pos by simp
  moreover have "options ! (?r - 1) \<in> set options" using idx by simp
  moreover have "\<forall>opt \<in> set options. opt \<le> n \<longrightarrow> opt \<le> options ! (?r - 1)"
  proof (intro ballI impI)
    fix opt assume "opt \<in> set options" "opt \<le> n"
    then obtain i where i: "i < length options" "options ! i = opt"
      by (auto simp: in_set_conv_nth)
    have "i < ?r"
    proof (rule ccontr)
      assume "\<not> i < ?r"
      with above i have "n < opt" by auto
      with \<open>opt \<le> n\<close> show False by simp
    qed
    with idx have "options ! i \<le> options ! (?r - 1)"
      using sorted_options by (simp add: sorted_nth_mono)
    with i show "opt \<le> options ! (?r - 1)" by simp
  qed
  ultimately show ?thesis by (simp add: calc)
qed



lemma bucket_head_Some:
  "bucket_head hb b k = Some j \<longleftrightarrow> j < k \<and> hb j = b \<and> (\<forall>i. j < i \<and> i < k \<longrightarrow> hb i \<noteq> b)"
proof (induction k)
  case 0
  show ?case by simp
next
  case (Suc k)
  show ?case
  proof (cases "hb k = b")
    case True
    then show ?thesis by (auto simp: less_Suc_eq)
  next
    case False
    with Suc show ?thesis by (auto simp: less_Suc_eq)
  qed
qed

lemma bucket_head_None: "bucket_head hb b k = None \<longleftrightarrow> (\<forall>i<k. hb i \<noteq> b)"
  by (induction k) (auto simp: less_Suc_eq)

lemma elf_hash_loop_from:
  assumes "k \<le> length names"
  shows "elf_hash_loop nb (enumerate k (drop k names))
           (\<lambda>b. bucket_head (bucket_of nb names) b k, C)
         = (\<lambda>b. bucket_head (bucket_of nb names) b (length names),
            \<lambda>i. if k \<le> i \<and> i < length names
                then Some (case bucket_head (bucket_of nb names) (bucket_of nb names i) i of
                             None \<Rightarrow> 0 | Some j \<Rightarrow> j)
                else C i)"
  using assms
proof (induction "length names - k" arbitrary: k C)
  case 0
  then show ?case by (auto simp: fun_eq_iff)
next
  case (Suc m)
  then have k: "k < length names" by simp
  then have dr: "drop k names = names ! k # drop (Suc k) names"
    by (simp add: Cons_nth_drop_Suc)
  let ?hb = "bucket_of nb names"
  have heads: "(\<lambda>b. bucket_head ?hb b k)(?hb k \<mapsto> k) = (\<lambda>b. bucket_head ?hb b (Suc k))"
    by (rule ext) simp
  let ?C = "C(k \<mapsto> (case bucket_head ?hb (?hb k) k of None \<Rightarrow> 0 | Some i \<Rightarrow> i))"
  from Suc.hyps(2) k have m: "m = length names - Suc k" by simp
  from k have le: "Suc k \<le> length names" by simp
  have step: "elf_hash_loop nb (enumerate k (drop k names)) (\<lambda>b. bucket_head ?hb b k, C)
      = elf_hash_loop nb (enumerate (Suc k) (drop (Suc k) names))
          (\<lambda>b. bucket_head ?hb b (Suc k), ?C)"
    unfolding heads [symmetric] by (simp add: dr bucket_of_def Let_def)
  show ?case unfolding step Suc.hyps(1) [OF m le, of ?C]
    using k by (auto simp: fun_eq_iff)
qed

lemma elf_hash_loop_result:
  "elf_hash_loop nb (enumerate 0 names) (Map.empty, Map.empty)
   = (\<lambda>b. bucket_head (bucket_of nb names) b (length names),
      \<lambda>i. if i < length names
          then Some (case bucket_head (bucket_of nb names) (bucket_of nb names i) i of
                       None \<Rightarrow> 0 | Some j \<Rightarrow> j)
          else None)"
  using elf_hash_loop_from [of 0 names nb Map.empty] by simp

lemma bucket_of_take: "i < k \<Longrightarrow> bucket_of nb (take k names) i = bucket_of nb names i"
  by (simp add: bucket_of_def)

lemma bucket_head_cong:
  "(\<And>i. i < k \<Longrightarrow> hb i = hb' i) \<Longrightarrow> bucket_head hb b k = bucket_head hb' b k"
  by (induction k) auto

text \<open>
  C4.  After a successful rebuild the table has \<open>nchain\<close> equal to the old count
  minus the removed symbols and \<open>nbuckets = calc_nbuckets nchain\<close>, which for
  \<open>nchain \<ge> 1\<close> is the largest value of the schedule not above \<open>nchain\<close>.  The
  bucket heads after inserting the first \<open>k\<close> symbols are \<open>bucket_head \<dots> k\<close>: the
  last of these symbols in that bucket.  So \<open>chains[i]\<close> is the head of the bucket of
  symbol \<open>i\<close> before its insertion (0 if there is none), \<open>i\<close> is the head after it, and
  the written \<open>buckets\<close> are the final heads.  The size of a section that has a header
  is set to \<open>(2 + nbuckets + nchain) * 4\<close>.
\<close>

theorem recreate_elf_hash_table:
  assumes run: "recreate_elf_hash self dynsym_w n_removed_syms = Inr self'"
    and eh: "elf_hash self = Some eh"
  shows "\<exists>eh'. elf_hash self' = Some eh'
     \<and> h_nchains (w_section eh') = h_nchains (w_section eh) - int n_removed_syms
     \<and> h_nbuckets (w_section eh') = calc_nbuckets (h_nchains (w_section eh'))
     \<and> (1 \<le> h_nchains (w_section eh') \<longrightarrow>
           h_nbuckets (w_section eh') \<in> set options
           \<and> h_nbuckets (w_section eh') \<le> h_nchains (w_section eh')
           \<and> (\<forall>opt \<in> set options. opt \<le> h_nchains (w_section eh')
                 \<longrightarrow> opt \<le> h_nbuckets (w_section eh')))
     \<and> (let names = map sym_name (symbols (w_section dynsym_w));
             hb = bucket_of (h_nbuckets (w_section eh')) names
         in (\<forall>k \<le> length names.
               fst (elf_hash_loop (h_nbuckets (w_section eh')) (enumerate 0 (take k names))
                      (Map.empty, Map.empty))
               = (\<lambda>b. bucket_head hb b k))
            \<and> h_buckets (w_section eh')
                = map (\<lambda>b. head_or_0 (bucket_head hb (int b) (length names)))
                    [0..<nat (h_nbuckets (w_section eh'))]
            \<and> h_chains (w_section eh')
                = map (\<lambda>i. if i < length names then head_or_0 (bucket_head hb (hb i) i) else 0)
                    [0..<nat (h_nchains (w_section eh'))]
            \<and> (\<forall>i < length names. bucket_head hb (hb i) (Suc i) = Some i)
            \<and> (\<forall>b k j. bucket_head hb b k = Some j
                  \<longleftrightarrow> j < k \<and> hb j = b \<and> (\<forall>i. j < i \<and> i < k \<longrightarrow> hb i \<noteq> b)))
     \<and> (w_index eh \<noteq> - 1 \<longrightarrow>
           sh_size (w_section eh')
           = nat ((2 + h_nbuckets (w_section eh') + h_nchains (w_section eh')) * 4))"
proof -
  let ?nchains = "h_nchains (w_section eh) - int n_removed_syms"
  let ?nb = "calc_nbuckets ?nchains"
  let ?names = "map sym_name (symbols (w_section dynsym_w))"
  let ?hb = "bucket_of ?nb ?names"
  let ?ob = "map (\<lambda>b. head_or_0 (bucket_head ?hb (int b) (length ?names))) [0..<nat ?nb]"
  let ?oc = "map (\<lambda>i. if i < length ?names then head_or_0 (bucket_head ?hb (?hb i) i) else 0)
               [0..<nat ?nchains]"
  let ?eh1 = "eh\<lparr>w_section := (w_section eh)
                 \<lparr>h_nbuckets := ?nb, h_nchains := ?nchains, h_buckets := ?ob, h_chains := ?oc\<rparr>\<rparr>"
  have loop: "elf_hash_loop ?nb (enumerate 0 ?names) (Map.empty, Map.empty)
      = (\<lambda>b. bucket_head ?hb b (length ?names),
         \<lambda>i. if i < length ?names
             then Some (case bucket_head ?hb (?hb i) i of None \<Rightarrow> 0 | Some j \<Rightarrow> j)
             else None)"
    by (rule elf_hash_loop_result)
  have ob: "map (\<lambda>i. dict_get (\<lambda>b. bucket_head ?hb b (length ?names)) (int i)) [0..<nat ?nb] = ?ob"
    by (simp add: dict_get_def head_or_0_def)
  have oc: "map (dict_get (\<lambda>i. if i < length ?names
             then Some (case bucket_head ?hb (?hb i) i of None \<Rightarrow> 0 | Some j \<Rightarrow> j)
             else None)) [0..<nat ?nchains] = ?oc"
    by (auto simp: dict_get_def head_or_0_def split: option.splits)
  have unfolded: "recreate_elf_hash self dynsym_w n_removed_syms
      = (if \<not> fits_u32 ?nb \<or> \<not> fits_u32 ?nchains
            \<or> \<not> list_all fits_u32 ?ob \<or> \<not> list_all fits_u32 ?oc
         then Inl OverflowError
         else case set_section_size ?eh1 (nat ((2 + ?nchains + ?nb) * 4)) False of
                Inl e \<Rightarrow> Inl e
              | Inr eh' \<Rightarrow> Inr (self\<lparr>elf_hash := Some eh'\<rparr>))"
    by (simp only: recreate_elf_hash_def eh option.case Let_def loop prod.case ob oc)
  from run obtain eh' where
    size: "set_section_size ?eh1 (nat ((2 + ?nchains + ?nb) * 4)) False = Inr eh'"
    and self': "self' = self\<lparr>elf_hash := Some eh'\<rparr>"
    unfolding unfolded by (auto split: if_splits sum.splits)
  from size have sec: "w_section eh' = (w_section ?eh1)\<lparr>sh_size := sh_size (w_section eh')\<rparr>"
    by (auto simp: set_section_size_def set_section_attribute_def Let_def split: if_splits)
  from size have sz: "w_index eh \<noteq> - 1 \<longrightarrow> sh_size (w_section eh') = nat ((2 + ?nb + ?nchains) * 4)"
    by (auto simp: set_section_size_def set_section_attribute_def Let_def algebra_simps
        split: if_splits)
  have f1: "h_nchains (w_section eh') = ?nchains" by (subst sec) simp
  have f2: "h_nbuckets (w_section eh') = ?nb" by (subst sec) simp
  have f3: "h_buckets (w_section eh') = ?ob" by (subst sec) simp
  have f4: "h_chains (w_section eh') = ?oc" by (subst sec) simp
  have prefix: "\<forall>k \<le> length ?names.
      fst (elf_hash_loop ?nb (enumerate 0 (take k ?names)) (Map.empty, Map.empty))
      = (\<lambda>b. bucket_head ?hb b k)"
  proof (intro allI impI)
    fix k assume k: "k \<le> length ?names"
    have "bucket_head (bucket_of ?nb (take k ?names)) b k = bucket_head ?hb b k" for b
      by (rule bucket_head_cong) (simp add: bucket_of_take)
    with k show "fst (elf_hash_loop ?nb (enumerate 0 (take k ?names)) (Map.empty, Map.empty))
      = (\<lambda>b. bucket_head ?hb b k)"
      by (simp add: elf_hash_loop_result min_absorb2)
  qed
  have c1: "elf_hash self' = Some eh'" by (simp add: self')
  have c4: "1 \<le> h_nchains (w_section eh') \<longrightarrow>
           h_nbuckets (w_section eh') \<in> set options
           \<and> h_nbuckets (w_section eh') \<le> h_nchains (w_section eh')
           \<and> (\<forall>opt \<in> set options. opt \<le> h_nchains (w_section eh')
                 \<longrightarrow> opt \<le> h_nbuckets (w_section eh'))"
    unfolding f1 f2 using calc_nbuckets_largest [of ?nchains] by blast
  have c5: "let names = map sym_name (symbols (w_section dynsym_w));
             hb = bucket_of (h_nbuckets (w_section eh')) names
         in (\<forall>k \<le> length names.
               fst (elf_hash_loop (h_nbuckets (w_section eh')) (enumerate 0 (take k names))
                      (Map.empty, Map.empty))
               = (\<lambda>b. bucket_head hb b k))
            \<and> h_buckets (w_section eh')
                = map (\<lambda>b. head_or_0 (bucket_head hb (int b) (length names)))
                    [0..<nat (h_nbuckets (w_section eh'))]
            \<and> h_chains (w_section eh')
                = map (\<lambda>i. if i < length names then head_or_0 (bucket_head hb (hb i) i) else 0)
                    [0..<nat (h_nchains (w_section eh'))]
            \<and> (\<forall>i < length names. bucket_head hb (hb i) (Suc i) = Some i)
            \<and> (\<forall>b k j. bucket_head hb b k = Some j
                  \<longleftrightarrow> j < k \<and> hb j = b \<and> (\<forall>i. j < i \<and> i < k \<longrightarrow> hb i \<noteq> b))"
    unfolding Let_def f1 f2 f3 f4 using prefix by (simp add: bucket_head_Some)
  have c6: "w_index eh \<noteq> - 1 \<longrightarrow>
           sh_size (w_section eh')
           = nat ((2 + h_nbuckets (w_section eh') + h_nchains (w_section eh')) * 4)"
    unfolding f1 f2 by (rule sz)
  have c3: "h_nbuckets (w_section eh') = calc_nbuckets (h_nchains (w_section eh'))"
    unfolding f1 f2 ..
  show ?thesis by (intro exI [of _ eh'] conjI c1 f1 c3 c4 c5 c6)
qed

theorem recreate_elf_hash_table_witness:
  "\<exists>self' eh'. recreate_elf_hash elf_hashed hashed_dynsym 1 = Inr self'
     \<and> elf_hash self' = Some eh'
     \<and> h_nbuckets (w_section eh') = 3 \<and> h_nchains (w_section eh') = 4
     \<and> h_buckets (w_section eh') = [2, 0, 3]
     \<and> h_chains (w_section eh') = [0, 0, 1, 0]
     \<and> sh_size (w_section eh') = 36"
proof -
  let ?eh = "the (elf_hash elf_hashed)"
  have eh: "elf_hash elf_hashed = Some ?eh" by (simp add: elf_hashed_def)
  have eval: "map_sum id (\<lambda>s. map_option (\<lambda>e. (h_buckets (w_section e), h_chains (w_section e)))
                 (elf_hash s)) (recreate_elf_hash elf_hashed hashed_dynsym 1)
      = Inr (Some ([2, 0, 3], [0, 0, 1, 0]))"
    by code_simp
  then obtain self' where run: "recreate_elf_hash elf_hashed hashed_dynsym 1 = Inr self'"
    by (cases "recreate_elf_hash elf_hashed hashed_dynsym 1") auto
  have nch: "h_nchains (w_section ?eh) - int 1 = 4" by (simp add: elf_hashed_def)
  have idx: "w_index ?eh \<noteq> - 1" by (simp add: elf_hashed_def)
  have nb: "calc_nbuckets 4 = 3" by code_simp
  from recreate_elf_hash_table [OF run eh] obtain eh' where
    "elf_hash self' = Some eh'"
    "h_nchains (w_section eh') = 4"
    "h_nbuckets (w_section eh') = 3"
    "sh_size (w_section eh') = 36"
    unfolding nch using idx nb by auto
  moreover from this(1) eval run have "h_buckets (w_section eh') = [2, 0, 3]"
    "h_chains (w_section eh') = [0, 0, 1, 0]" by simp_all
  ultimately show ?thesis using run by blast
qed

subsection \<open>String table compactor\<close>

lemma fold_err_append:
  "fold_err body (xs @ ys) s =
     (case fold_err body xs s of Inl e \<Rightarrow> Inl e | Inr s' \<Rightarrow> fold_err body ys s')"
  by (induction xs arbitrary: s) (auto split: sum.splits)

lemma fold_err_take_Suc:
  assumes "k < length xs"
  shows "fold_err body (take (Suc k) xs) s =
     (case fold_err body (take k xs) s of Inl e \<Rightarrow> Inl e | Inr s' \<Rightarrow> body (xs ! k) s')"
  using assms by (simp add: take_Suc_conv_app_nth fold_err_append split: sum.splits)

lemma fold_err_take_ok:
  assumes "fold_err body xs s = Inr r"
  shows "\<exists>s'. fold_err body (take k xs) s = Inr s' \<and> fold_err body (drop k xs) s' = Inr r"
proof -
  have "fold_err body (take k xs @ drop k xs) s = Inr r" using assms by simp
  then show ?thesis unfolding fold_err_append by (auto split: sum.splits)
qed

lemma dynstr_step_keeps:
  assumes "dynstr_step bs pc st = Inr st'" "ds_index_map st a = Some v"
  shows "ds_index_map st' a = Some v"
  using assms
  by (cases pc) (auto simp: dynstr_step_def Let_def split: if_splits prod.splits)

lemma dynstr_fold_keeps:
  assumes "fold_err (dynstr_step bs) pcs st = Inr st'" "ds_index_map st a = Some v"
  shows "ds_index_map st' a = Some v"
  using assms
proof (induction pcs arbitrary: st)
  case Nil
  then show ?case by simp
next
  case (Cons pc pcs)
  from Cons.prems(1) obtain st1 where 1: "dynstr_step bs pc st = Inr st1"
    and 2: "fold_err (dynstr_step bs) pcs st1 = Inr st'"
    by (auto split: sum.splits)
  from dynstr_step_keeps [OF 1 Cons.prems(2)] Cons.IH [OF 2] show ?case by simp
qed


text \<open>The invariant of the loop after \<open>k\<close> steps.\<close>

lemma dynstr_prefix_invariant:
  assumes srt: "sorted (map fst rs)" and k: "k < length rs"
    and run: "dynstr_prefix bs rs k = Inr st"
  shows "dom (ds_index_map st) = fst ` set (take (Suc k) rs)
     \<and> ds_index_map st (fst (rs ! k)) = Some (ds_last_start st)"
  using k run
proof (induction k arbitrary: st)
  case 0
  then have "rs \<noteq> []" by auto
  then have "take (Suc 0) rs = [hd rs]" "rs ! 0 = hd rs"
    by (cases rs; simp)+
  with 0 show ?case by (auto simp: dynstr_prefix_def dynstr_init_def split: if_splits)
next
  case (Suc k)
  let ?pcs = "zip rs (tl rs)"
  from Suc.prems(1) have k: "k < length rs" and kz: "k < length ?pcs" by simp_all
  from Suc.prems(2) kz obtain st0 where
    prev: "dynstr_prefix bs rs k = Inr st0" and
    step: "dynstr_step bs (?pcs ! k) st0 = Inr st"
    unfolding dynstr_prefix_def by (auto simp: fold_err_take_Suc split: sum.splits)
  from Suc.IH [OF k prev] have
    dom0: "dom (ds_index_map st0) = fst ` set (take (Suc k) rs)" and
    last0: "ds_index_map st0 (fst (rs ! k)) = Some (ds_last_start st0)" by simp_all
  have pc: "?pcs ! k = (rs ! k, rs ! Suc k)"
    using Suc.prems(1) by (simp add: nth_tl)
  obtain ps pe where p: "rs ! k = (ps, pe)" by (cases "rs ! k")
  obtain s e where c: "rs ! Suc k = (s, e)" by (cases "rs ! Suc k")
  have take: "take (Suc (Suc k)) rs = take (Suc k) rs @ [rs ! Suc k]"
    using Suc.prems(1) by (simp add: take_Suc_conv_app_nth)
  have le: "ps \<le> s"
    using sorted_nth_mono [OF srt, of k "Suc k"] Suc.prems(1) p c by simp
  show ?case
  proof (cases "ds_index_map st0 s \<noteq> None")
    case True
    then have st: "st = st0" using step by (simp add: pc p c dynstr_step_def)
    from True have "s \<in> fst ` set (take (Suc k) rs)" using dom0 by (auto simp: dom_def)
    then obtain j where j: "j < Suc k" "fst (rs ! j) = s"
      using k by (auto simp: in_set_conv_nth)
    from sorted_nth_mono [OF srt, of j k] j k have "s \<le> ps" using p by simp
    with le have "s = ps" by simp
    with last0 p dom0 True show ?thesis
      by (auto simp: st take c)
  next
    case False
    with step have upd: "ds_index_map st = (ds_index_map st0)(s \<mapsto> ds_last_start st)"
      by (auto simp: pc p c dynstr_step_def Let_def split: if_splits)
    have "dom (ds_index_map st) = insert s (dom (ds_index_map st0))"
      by (subst upd) simp
    with dom0 have "dom (ds_index_map st) = fst ` set (take (Suc (Suc k)) rs)"
      by (simp add: take c)
    moreover have "ds_index_map st (fst (rs ! Suc k)) = Some (ds_last_start st)"
      by (subst upd) (simp add: c)
    ultimately show ?thesis by simp
  qed
qed

lemma dec_range_distinct:
  "distinct (map fst ranges) \<Longrightarrow> distinct (map fst (dec_range ranges key))"
  by (simp add: dec_range_def Let_def distinct_update distinct_delete)

lemma dec_removed_distinct:
  "dec_removed bs removed ranges = Inr ranges' \<Longrightarrow> distinct (map fst ranges)
   \<Longrightarrow> distinct (map fst ranges')"
  by (induction removed arbitrary: ranges) (auto simp: dec_range_distinct split: sum.splits)

text \<open>
  C3.  Let the surviving ranges be sorted and let range \<open>i\<close> lie inside its predecessor
  (\<open>s < prev.end\<close> and \<open>e = prev.end\<close>).  Then the offset map of a successful run sends
  \<open>s\<close> to the new start of the predecessor plus \<open>s - prev.start\<close>, and the step of the
  loop that handles range \<open>i\<close> leaves the output bytes as they were.  The dictionary
  of ranges has distinct keys, as every Python dictionary has.
\<close>

theorem dynstr_suffix_alias:
  assumes run: "build_new_dynstr self removed_symbols = Inr (self', Some (out_bytes, index_map))"
    and ds: "dynstr self = Some ds"
    and dict: "distinct (map fst (dynstr_ranges self))"
    and i: "0 < i" "i < length (sort (map fst (dynstr_ranges self')))"
    and inside: "fst (sort (map fst (dynstr_ranges self')) ! i)
                   < snd (sort (map fst (dynstr_ranges self')) ! (i - 1))"
    and same_end: "snd (sort (map fst (dynstr_ranges self')) ! i)
                   = snd (sort (map fst (dynstr_ranges self')) ! (i - 1))"
  shows "\<exists>prev_target before after.
           index_map (fst (sort (map fst (dynstr_ranges self')) ! (i - 1))) = Some prev_target
         \<and> index_map (fst (sort (map fst (dynstr_ranges self')) ! i))
             = Some (prev_target + (int (fst (sort (map fst (dynstr_ranges self')) ! i))
                                   - int (fst (sort (map fst (dynstr_ranges self')) ! (i - 1)))))
         \<and> dynstr_prefix (strtab (w_section ds)) (sort (map fst (dynstr_ranges self'))) (i - 1)
             = Inr before
         \<and> dynstr_prefix (strtab (w_section ds)) (sort (map fst (dynstr_ranges self'))) i
             = Inr after
         \<and> ds_out_bytes after = ds_out_bytes before
         \<and> (\<exists>final. dynstr_prefix (strtab (w_section ds)) (sort (map fst (dynstr_ranges self')))
                        (length (sort (map fst (dynstr_ranges self'))) - 1) = Inr final
                    \<and> out_bytes = ds_out_bytes final \<and> index_map = ds_index_map final)"
proof -
  let ?bs = "strtab (w_section ds)"
  let ?rs = "sort (map fst (dynstr_ranges self'))"
  let ?pcs = "zip ?rs (tl ?rs)"
  from run ds obtain ranges final where
    dec: "dec_removed ?bs removed_symbols (dynstr_ranges self) = Inr ranges"
    and self': "self' = self\<lparr>dynstr_ranges := ranges\<rparr>"
    and final: "dynstr_prefix ?bs (sort (map fst ranges)) (length (sort (map fst ranges)) - 1) = Inr final"
    and out: "out_bytes = ds_out_bytes final" "index_map = ds_index_map final"
    by (auto simp: build_new_dynstr_def Let_def split: sum.splits if_splits)
  from self' have rs: "sort (map fst ranges) = ?rs" by simp
  note final = final [unfolded rs]
  have dist: "distinct ?rs"
    using dec_removed_distinct [OF dec dict] by (simp add: self')
  have srt: "sorted (map fst ?rs)" by (rule sorted_map_fst) simp
  from i have len: "length ?pcs = length ?rs - 1" by simp
  define k where "k = i - 1"
  with i have k: "k < length ?rs" "Suc k = i" "k < length ?pcs" by simp_all
  from final have full: "fold_err (dynstr_step ?bs) ?pcs (dynstr_init (hd ?rs)) = Inr final"
    by (simp add: dynstr_prefix_def)
  from fold_err_take_ok [OF full, of i] obtain after where
    after: "dynstr_prefix ?bs ?rs i = Inr after"
    and rest: "fold_err (dynstr_step ?bs) (drop i ?pcs) after = Inr final"
    by (auto simp: dynstr_prefix_def)
  from after k obtain before where
    before: "dynstr_prefix ?bs ?rs k = Inr before"
    and step: "dynstr_step ?bs (?pcs ! k) before = Inr after"
    unfolding dynstr_prefix_def k(2) [symmetric]
    by (auto simp: fold_err_take_Suc split: sum.splits)
  from dynstr_prefix_invariant [OF srt k(1) before] have
    dom0: "dom (ds_index_map before) = fst ` set (take (Suc k) ?rs)" and
    last0: "ds_index_map before (fst (?rs ! k)) = Some (ds_last_start before)" by simp_all
  have pc: "?pcs ! k = (?rs ! k, ?rs ! i)"
    using i k by (simp add: nth_tl)
  obtain ps pe where p: "?rs ! k = (ps, pe)" by (cases "?rs ! k")
  obtain s e where c: "?rs ! i = (s, e)" by (cases "?rs ! i")
  from p have pk: "?rs ! (i - Suc 0) = (ps, pe)" by (simp add: k_def)
  from inside same_end have al: "s < pe" "e = pe" by (simp_all add: pk c)
  have le: "ps \<le> s"
    using sorted_nth_mono [OF srt, of k i] i k p c by simp
  have "?rs ! k \<noteq> ?rs ! i"
    using dist i k by (simp add: nth_eq_iff_index_eq)
  with p c al le have lt: "ps < s" by auto
  have fresh: "ds_index_map before s = None"
  proof (rule ccontr)
    assume "ds_index_map before s \<noteq> None"
    then have "s \<in> fst ` set (take (Suc k) ?rs)" using dom0 by (auto simp: dom_def)
    then obtain j where j: "j < Suc k" "fst (?rs ! j) = s"
      using k by (auto simp: in_set_conv_nth)
    from sorted_nth_mono [OF srt, of j k] j k have "s \<le> ps" using p by simp
    with lt show False by simp
  qed
  from step fresh al have after_eq:
    "after = before\<lparr>ds_last_start := ds_last_start before + (int s - int ps),
                     ds_index_map := (ds_index_map before)
                        (s \<mapsto> ds_last_start before + (int s - int ps))\<rparr>"
    by (simp add: pc p c dynstr_step_def Let_def)
  have m_s: "ds_index_map after s = Some (ds_last_start before + (int s - int ps))"
    by (subst after_eq) simp
  have m_p: "ds_index_map after ps = Some (ds_last_start before)"
    using last0 lt by (subst after_eq) (simp add: p)
  from dynstr_fold_keeps [OF rest m_s] dynstr_fold_keeps [OF rest m_p]
  have "index_map ps = Some (ds_last_start before)"
    "index_map s = Some (ds_last_start before + (int s - int ps))"
    by (simp_all add: out)
  moreover have "ds_out_bytes after = ds_out_bytes before" by (subst after_eq) simp
  ultimately show ?thesis
    using before after final out by (simp add: pk c k_def)
qed

theorem dynstr_suffix_alias_witness:
  "\<exists>self' out_bytes index_map.
      build_new_dynstr elf_strings [mk_symbol ''foo'' 3 9 4200 16 0]
        = Inr (self', Some (out_bytes, index_map))
    \<and> sort (map fst (dynstr_ranges self')) = [(0, 0), (1, 8), (4, 8)]
    \<and> index_map 1 = Some 1 \<and> index_map 4 = Some 4
    \<and> out_bytes = [0, 103, 101, 116, 108, 105, 110, 101, 0]"
proof -
  let ?removed = "[mk_symbol ''foo'' 3 9 4200 16 0]"
  let ?ds = "the (dynstr elf_strings)"
  have eval: "map_sum id (\<lambda>(s, r). (dynstr_ranges s,
                  map_option (\<lambda>(out, m). (out, m 1, m 4)) r))
                (build_new_dynstr elf_strings ?removed)
      = Inr ([((0, 0), 1), ((1, 8), 1), ((4, 8), 1)],
             Some ([0, 103, 101, 116, 108, 105, 110, 101, 0], Some 1, Some 4))"
    by code_simp
  then obtain self' out_bytes index_map where
    run: "build_new_dynstr elf_strings ?removed = Inr (self', Some (out_bytes, index_map))"
    and ranges: "dynstr_ranges self' = [((0, 0), 1), ((1, 8), 1), ((4, 8), 1)]"
    and vals: "index_map 1 = Some 1" "out_bytes = [0, 103, 101, 116, 108, 105, 110, 101, 0]"
    by (cases "build_new_dynstr elf_strings ?removed") (auto split: prod.splits)
  have rs: "sort (map fst (dynstr_ranges self')) = [(0, 0), (1, 8), (4, 8)]"
    unfolding ranges by code_simp
  have ds: "dynstr elf_strings = Some ?ds" by (simp add: elf_strings_def)
  have dict: "distinct (map fst (dynstr_ranges elf_strings))"
    by (simp add: elf_strings_def empty_elf_def)
  from dynstr_suffix_alias [OF run ds dict, of 2]
  obtain prev_target where "index_map 1 = Some prev_target"
    "index_map 4 = Some (prev_target + 3)"
    unfolding rs by auto
  with vals have "index_map 4 = Some 4" by simp
  with run rs vals show ?thesis by blast
qed

end
